theory Spec2Isabelle
  imports Main
begin

section \<open>Go primitives the package relies on\<close>

text \<open>
  Go's \<^verbatim>\<open>int\<close> is taken as the 64-bit two's complement integer of the usual targets.
  Values are carried as \<^typ>\<open>int\<close>; every sum or product the source computes on
  \<^verbatim>\<open>int\<close> goes through \<open>wrap64\<close>, which writes the wrap-around out.
  Go's \<^verbatim>\<open>/\<close> and \<^verbatim>\<open>%\<close> truncate towards zero, unlike HOL's \<open>div\<close> and \<open>mod\<close>.
\<close>

definition wrap64 :: "int \<Rightarrow> int" where
  "wrap64 x = (x + 2 ^ 63) mod 2 ^ 64 - 2 ^ 63"

definition go_quo :: "int \<Rightarrow> int \<Rightarrow> int" where
  "go_quo a b = (if (0 \<le> a) = (0 < b) then \<bar>a\<bar> div \<bar>b\<bar> else - (\<bar>a\<bar> div \<bar>b\<bar>))"

definition go_rem :: "int \<Rightarrow> int \<Rightarrow> int" where
  "go_rem a b = a - b * go_quo a b"

text \<open>A Go string is a sequence of bytes; \<open>byte\<close> reads one as a number.\<close>

definition byte :: "char \<Rightarrow> nat" where
  "byte c = of_char c"

definition is_digit :: "char \<Rightarrow> bool" where
  "is_digit c = (byte CHR ''0'' \<le> byte c \<and> byte c \<le> byte CHR ''9'')"

definition digit_val :: "char \<Rightarrow> nat" where
  "digit_val c = byte c - byte CHR ''0''"

text \<open>The value of a string of decimal digits, most significant digit first.\<close>

definition dec :: "string \<Rightarrow> nat" where
  "dec ds = foldl (\<lambda>n c. 10 * n + digit_val c) 0 ds"

text \<open>
  \<^verbatim>\<open>strconv.Atoi\<close>: an optional sign, then at least one decimal digit and nothing else;
  a value outside the range of \<^verbatim>\<open>int\<close> is an error too. \<open>None\<close> stands for the error.
\<close>

definition Atoi :: "string \<Rightarrow> int option" where
  "Atoi s =
     (case s of
        [] \<Rightarrow> None
      | c # cs \<Rightarrow>
          let neg = (c = CHR ''-'');
              ds = (if c = CHR ''-'' \<or> c = CHR ''+'' then cs else s);
              v = (if neg then - int (dec ds) else int (dec ds))
          in if ds = [] \<or> \<not> list_all is_digit ds then None
             else if v < - (2 ^ 63) \<or> 2 ^ 63 - 1 < v then None
             else Some v)"

text \<open>
  \<^verbatim>\<open>strconv.Itoa\<close> on a natural number: its decimal digits, without leading zeros.
\<close>

definition digit_char :: "nat \<Rightarrow> char" where
  "digit_char d = ''0123456789'' ! d"

fun itoa :: "nat \<Rightarrow> string" where
  "itoa n = (if n < 10 then [digit_char n] else itoa (n div 10) @ [digit_char (n mod 10)])"

declare itoa.simps [simp del]

text \<open>
  \<^verbatim>\<open>fmt.Sprintf("%0wd", n)\<close>: the decimal digits of \<open>n\<close>, padded with zeros on the left
  to \<open>w\<close> characters; a minus sign counts towards the width and stays in front.
\<close>

definition zero_pad :: "nat \<Rightarrow> int \<Rightarrow> string" where
  "zero_pad w n =
     (if 0 \<le> n then replicate (w - length (itoa (nat n))) CHR ''0'' @ itoa (nat n)
      else CHR ''-'' # replicate (w - 1 - length (itoa (nat (- n)))) CHR ''0'' @ itoa (nat (- n)))"

text \<open>
  \<^verbatim>\<open>fmt.Sprintf(format, n)\<close> for the formats of \<open>formatLookup\<close>, which all have the
  shape \<^verbatim>\<open>%0wd\<close> with a one-digit width. The empty format of resolution 0 is never
  printed with: \<open>ToGridRef\<close> returns before.
\<close>

definition Sprintf_d :: "string \<Rightarrow> int \<Rightarrow> string" where
  "Sprintf_d format n =
     (case format of
        [p, z, w, d] \<Rightarrow>
          if p = CHR ''%'' \<and> z = CHR ''0'' \<and> is_digit w \<and> d = CHR ''d''
          then zero_pad (digit_val w) n else format
      | _ \<Rightarrow> format)"

text \<open>
  \<^verbatim>\<open>utf8.RuneCountInString\<close>. \<open>first_byte\<close> is the table of the first bytes of an
  encoding: the length of the encoding and the range its second byte must lie in;
  \<open>None\<close> for a single byte (ASCII) and for a byte that starts no encoding.
  \<open>rune_size\<close> is the number of bytes the decoder takes for the next rune: an invalid or
  cut-off encoding counts as one rune of one byte.
\<close>

definition first_byte :: "nat \<Rightarrow> (nat \<times> nat \<times> nat) option" where
  "first_byte b =
     (if b < 0xC2 then None
      else if b \<le> 0xDF then Some (2, 0x80, 0xBF)
      else if b = 0xE0 then Some (3, 0xA0, 0xBF)
      else if b = 0xED then Some (3, 0x80, 0x9F)
      else if b \<le> 0xEF then Some (3, 0x80, 0xBF)
      else if b = 0xF0 then Some (4, 0x90, 0xBF)
      else if b \<le> 0xF3 then Some (4, 0x80, 0xBF)
      else if b = 0xF4 then Some (4, 0x80, 0x8F)
      else None)"

definition continuation :: "char \<Rightarrow> bool" where
  "continuation c = (0x80 \<le> byte c \<and> byte c \<le> 0xBF)"

definition rune_size :: "char \<Rightarrow> string \<Rightarrow> nat" where
  "rune_size c cs =
     (case first_byte (byte c) of
        None \<Rightarrow> 1
      | Some (n, lo, hi) \<Rightarrow>
          if length cs + 1 < n then 1
          else if byte (cs ! 0) < lo \<or> hi < byte (cs ! 0) then 1
          else if n = 2 then 2
          else if \<not> continuation (cs ! 1) then 1
          else if n = 3 then 3
          else if \<not> continuation (cs ! 2) then 1
          else 4)"

fun RuneCountInString :: "string \<Rightarrow> nat" where
  "RuneCountInString [] = 0"
| "RuneCountInString (c # cs) = Suc (RuneCountInString (drop (rune_size c cs - 1) cs))"

definition HasPrefix :: "string \<Rightarrow> string \<Rightarrow> bool" where
  "HasPrefix s prefix = (length prefix \<le> length s \<and> take (length prefix) s = prefix)"

text \<open>
  \<^verbatim>\<open>int(math.Pow(10, float64(5 - n)))\<close> for a length \<open>n\<close>: the powers of ten up to
  \<open>10^5\<close> are exact in \<^verbatim>\<open>float64\<close>; a negative exponent gives a value strictly
  between 0 and 1, which the conversion to \<^verbatim>\<open>int\<close> truncates to 0.
\<close>

definition pow10_factor :: "nat \<Rightarrow> int" where
  "pow10_factor n = (if n \<le> 5 then 10 ^ (5 - n) else 0)"

section \<open>Data model\<close>

record GridCoord =
  Easting :: int
  Northing :: int

record GridRef =
  myriad :: string
  easting :: string
  northing :: string

text \<open>One constructor for each error message of the package.\<close>

datatype error =
    BadlyFormatted
  | UnknownMyriad
  | MismatchedLengths
  | InvalidEastingDigits
  | InvalidNorthingDigits
  | BadDigitResolution
  | WestOfExtents
  | EastOfExtents
  | SouthOfExtents
  | NorthOfExtents

abbreviation gc :: "int \<Rightarrow> int \<Rightarrow> GridCoord" where
  "gc e n \<equiv> \<lparr>Easting = e, Northing = n\<rparr>"

section \<open>The myriad tables\<close>

definition myriadOffsets_entries :: "(string \<times> GridCoord) list" where
  "myriadOffsets_entries =
    [
     (''HF'', gc 0 1300000), (''HG'', gc 100000 1300000), (''HH'', gc 200000 1300000),
     (''HJ'', gc 300000 1300000), (''HK'', gc 400000 1300000), (''HL'', gc 0 1200000),
     (''HM'', gc 100000 1200000), (''HN'', gc 200000 1200000), (''HO'', gc 300000 1200000),
     (''HP'', gc 400000 1200000), (''HQ'', gc 0 1100000), (''HR'', gc 100000 1100000),
     (''HS'', gc 200000 1100000), (''HT'', gc 300000 1100000), (''HU'', gc 400000 1100000),
     (''HV'', gc 0 1000000), (''HW'', gc 100000 1000000), (''HX'', gc 200000 1000000),
     (''HY'', gc 300000 1000000), (''HZ'', gc 400000 1000000), (''JF'', gc 500000 1300000),
     (''JG'', gc 600000 1300000), (''JH'', gc 700000 1300000), (''JL'', gc 500000 1200000),
     (''JM'', gc 600000 1200000), (''JN'', gc 700000 1200000), (''JQ'', gc 500000 1100000),
     (''JR'', gc 600000 1100000), (''JS'', gc 700000 1100000), (''JV'', gc 500000 1000000),
     (''JW'', gc 600000 1000000), (''JX'', gc 700000 1000000), (''NA'', gc 0 900000),
     (''NB'', gc 100000 900000), (''NC'', gc 200000 900000), (''ND'', gc 300000 900000),
     (''NE'', gc 400000 900000), (''NF'', gc 0 800000), (''NG'', gc 100000 800000),
     (''NH'', gc 200000 800000), (''NJ'', gc 300000 800000), (''NK'', gc 400000 800000),
     (''NL'', gc 0 700000), (''NM'', gc 100000 700000), (''NN'', gc 200000 700000),
     (''NO'', gc 300000 700000), (''NP'', gc 400000 700000), (''NQ'', gc 0 600000),
     (''NR'', gc 100000 600000), (''NS'', gc 200000 600000), (''NT'', gc 300000 600000),
     (''NU'', gc 400000 600000), (''NV'', gc 0 500000), (''NW'', gc 100000 500000),
     (''NX'', gc 200000 500000), (''NY'', gc 300000 500000), (''NZ'', gc 400000 500000),
     (''OA'', gc 500000 900000), (''OB'', gc 600000 900000), (''OC'', gc 700000 900000),
     (''OF'', gc 500000 800000), (''OG'', gc 600000 800000), (''OH'', gc 700000 800000),
     (''OL'', gc 500000 700000), (''OM'', gc 600000 700000), (''ON'', gc 700000 700000),
     (''OQ'', gc 500000 600000), (''OR'', gc 600000 600000), (''OS'', gc 700000 600000),
     (''OV'', gc 500000 500000), (''OW'', gc 600000 500000), (''OX'', gc 700000 500000),
     (''SA'', gc 0 400000), (''SB'', gc 100000 400000), (''SC'', gc 200000 400000),
     (''SD'', gc 300000 400000), (''SE'', gc 400000 400000), (''SF'', gc 0 300000),
     (''SG'', gc 100000 300000), (''SH'', gc 200000 300000), (''SJ'', gc 300000 300000),
     (''SK'', gc 400000 300000), (''SL'', gc 0 200000), (''SM'', gc 100000 200000),
     (''SN'', gc 200000 200000), (''SO'', gc 300000 200000), (''SP'', gc 400000 200000),
     (''SQ'', gc 0 100000), (''SR'', gc 100000 100000), (''SS'', gc 200000 100000),
     (''ST'', gc 300000 100000), (''SU'', gc 400000 100000), (''SV'', gc 0 0),
     (''SW'', gc 100000 0), (''SX'', gc 200000 0), (''SY'', gc 300000 0),
     (''SZ'', gc 400000 0), (''TA'', gc 500000 400000), (''TB'', gc 600000 400000),
     (''TC'', gc 700000 400000), (''TF'', gc 500000 300000), (''TG'', gc 600000 300000),
     (''TH'', gc 700000 300000), (''TL'', gc 500000 200000), (''TM'', gc 600000 200000),
     (''TN'', gc 700000 200000), (''TQ'', gc 500000 100000), (''TR'', gc 600000 100000),
     (''TS'', gc 700000 100000), (''TV'', gc 500000 0), (''TW'', gc 600000 0),
     (''TX'', gc 700000 0), (''XA'', gc 0 (-100000)), (''XB'', gc 100000 (-100000)),
     (''XC'', gc 200000 (-100000)), (''XD'', gc 300000 (-100000)), (''XE'', gc 400000 (-100000)),
     (''YA'', gc 500000 (-100000)), (''YB'', gc 600000 (-100000)), (''YC'', gc 700000 (-100000))
    ]"

definition myriadOffsets :: "string \<rightharpoonup> GridCoord" where
  "myriadOffsets = map_of myriadOffsets_entries"

definition myriadTable :: "string list list" where
  "myriadTable =
    [
     [''XA'', ''SV'', ''SQ'', ''SL'', ''SF'', ''SA'', ''NV'', ''NQ'', ''NL'', ''NF'', ''NA'', ''HV'', ''HQ'', ''HL'', ''HF''],
     [''XB'', ''SW'', ''SR'', ''SM'', ''SG'', ''SB'', ''NW'', ''NR'', ''NM'', ''NG'', ''NB'', ''HW'', ''HR'', ''HM'', ''HG''],
     [''XC'', ''SX'', ''SS'', ''SN'', ''SH'', ''SC'', ''NX'', ''NS'', ''NN'', ''NH'', ''NC'', ''HX'', ''HS'', ''HN'', ''HH''],
     [''XD'', ''SY'', ''ST'', ''SO'', ''SJ'', ''SD'', ''NY'', ''NT'', ''NO'', ''NJ'', ''ND'', ''HY'', ''HT'', ''HO'', ''HJ''],
     [''XE'', ''SZ'', ''SU'', ''SP'', ''SK'', ''SE'', ''NZ'', ''NU'', ''NP'', ''NK'', ''NE'', ''HZ'', ''HU'', ''HP'', ''HK''],
     [''YA'', ''TV'', ''TQ'', ''TL'', ''TF'', ''TA'', ''OV'', ''OQ'', ''OL'', ''OF'', ''OA'', ''JV'', ''JQ'', ''JL'', ''JF''],
     [''YB'', ''TW'', ''TR'', ''TM'', ''TG'', ''TB'', ''OW'', ''OR'', ''OM'', ''OG'', ''OB'', ''JW'', ''JR'', ''JM'', ''JG''],
     [''YC'', ''TX'', ''TS'', ''TN'', ''TH'', ''TC'', ''OX'', ''OS'', ''ON'', ''OH'', ''OC'', ''JX'', ''JS'', ''JN'', ''JH'']
    ]"

text \<open>
  \<open>formatLookup\<close>: the format and the factor of each digit resolution. The factors are
  \<^verbatim>\<open>float64\<close> constants with whole values, kept as integers.
\<close>

definition formatLookup :: "int \<rightharpoonup> string \<times> int" where
  "formatLookup = map_of
     [(0, ([], 0)),
      (1, (''%01d'', 10000)),
      (2, (''%02d'', 1000)),
      (3, (''%03d'', 100)),
      (4, (''%04d'', 10)),
      (5, (''%05d'', 1))]"

section \<open>Grid reference to coordinate\<close>

definition String :: "GridRef \<Rightarrow> string" where
  "String ngr =
     (if easting ngr \<noteq> [] then myriad ngr @ '' '' @ easting ngr @ '' '' @ northing ngr
      else myriad ngr)"

definition DigitResolution :: "GridRef \<Rightarrow> int" where
  "DigitResolution ngr = int (length (easting ngr))"

definition ToLatLon :: "GridRef \<Rightarrow> error + GridCoord" where
  "ToLatLon ngr =
     (case myriadOffsets (myriad ngr) of
        None \<Rightarrow> Inl UnknownMyriad
      | Some myriadOffset \<Rightarrow>
          if length (easting ngr) \<noteq> length (northing ngr) then Inl MismatchedLengths
          else
            (case (if 0 < length (easting ngr)
                   then (case Atoi (easting ngr) of
                           None \<Rightarrow> Inl InvalidEastingDigits
                         | Some e \<Rightarrow>
                             (case Atoi (northing ngr) of
                                None \<Rightarrow> Inl InvalidNorthingDigits
                              | Some n \<Rightarrow> Inr (e, n)))
                   else Inr (0, 0)) of
               Inl err \<Rightarrow> Inl err
             | Inr (e, n) \<Rightarrow>
                 let factor = pow10_factor (length (easting ngr))
                 in Inr \<lparr>Easting = wrap64 (wrap64 (e * factor) + Easting myriadOffset),
                         Northing = wrap64 (wrap64 (n * factor) + Northing myriadOffset)\<rparr>))"

section \<open>Coordinate to grid reference\<close>

text \<open>
  The digits are \<^verbatim>\<open>int(math.Floor(float64(x) / factor))\<close> with \<open>0 \<le> x < 100000\<close> and a
  factor among 1, 10, 100, 1000 and 10000: both are exact in \<^verbatim>\<open>float64\<close> and the rounded
  quotient has the floor of the exact one, so the floor is integer division.
\<close>

definition ToGridRef :: "GridCoord \<Rightarrow> int \<Rightarrow> error + GridRef" where
  "ToGridRef coord digitResolution =
     (case formatLookup digitResolution of
        None \<Rightarrow> Inl BadDigitResolution
      | Some (format, factor) \<Rightarrow>
          if Easting coord < 0 then Inl WestOfExtents
          else
            let i = go_quo (Easting coord) 100000 in
            if int (length myriadTable) \<le> i then Inl EastOfExtents
            else
              let j0 = wrap64 (Northing coord + 100000) in
              if j0 < 0 then Inl SouthOfExtents
              else
                let j = go_quo j0 100000 in
                if int (length (myriadTable ! nat i)) \<le> j then Inl NorthOfExtents
                else
                  let m = myriadTable ! nat i ! nat j in
                  if factor = 0 then Inr \<lparr>myriad = m, easting = [], northing = []\<rparr>
                  else
                    let eastingAsInt = go_rem (Easting coord) 100000 div factor;
                        northingAsInt = go_rem j0 100000 div factor
                    in Inr \<lparr>myriad = m,
                            easting = Sprintf_d format eastingAsInt,
                            northing = Sprintf_d format northingAsInt\<rparr>)"

section \<open>Regular expressions\<close>

text \<open>
  The fragment of Go's \<^verbatim>\<open>regexp\<close> syntax that \<open>ngrCre\<close> is written in: a literal byte,
  a character class given by its members (\<^verbatim>\<open>[JH]\<close>) or by a range (\<^verbatim>\<open>[F-H]\<close>, \<^verbatim>\<open>\d\<close>),
  sequence, alternation, the greedy option \<^verbatim>\<open>?\<close>, a named group \<^verbatim>\<open>(?P<name>...)\<close>, the
  end of the text \<^verbatim>\<open>$\<close> and its beginning \<^verbatim>\<open>^\<close>. An unnamed group only brackets: its
  capture is never read.
\<close>

datatype regex =
    Empty
  | Lit char
  | OneOf string
  | Range char char
  | Seq regex regex
  | Alt regex regex
  | Opt regex
  | Named string regex
  | Eot
  | Bot

text \<open>The bounded repetition \<^verbatim>\<open>r{n}\<close> is \<open>n\<close> copies of \<open>r\<close> in sequence.\<close>

fun rep :: "nat \<Rightarrow> regex \<Rightarrow> regex" where
  "rep 0 r = Empty"
| "rep (Suc n) r = Seq r (rep n r)"

type_synonym captures = "string \<rightharpoonup> string"

text \<open>
  A backtracking matcher on the text \<open>inp\<close>. \<open>run inp r (s, k)\<close> starts where \<open>s\<close> is
  what is left of \<open>inp\<close> and lists, in the order a backtracking search finds them, the
  ways \<open>r\<close> matches a prefix of \<open>s\<close>: what is left after it and the captures \<open>k\<close>
  extended by the named groups that took part. Go's matcher returns the match such a
  search finds first: the first alternative that leads to a match, and for \<^verbatim>\<open>?\<close> one
  occurrence before none.
\<close>

fun run :: "string \<Rightarrow> regex \<Rightarrow> string \<times> captures \<Rightarrow> (string \<times> captures) list" where
  "run inp Empty st = [st]"
| "run inp (Lit c) (s, k) = (case s of [] \<Rightarrow> [] | x # xs \<Rightarrow> if x = c then [(xs, k)] else [])"
| "run inp (OneOf cs) (s, k) =
     (case s of [] \<Rightarrow> [] | x # xs \<Rightarrow> if x \<in> set cs then [(xs, k)] else [])"
| "run inp (Range lo hi) (s, k) =
     (case s of [] \<Rightarrow> []
      | x # xs \<Rightarrow> if byte lo \<le> byte x \<and> byte x \<le> byte hi then [(xs, k)] else [])"
| "run inp (Seq a b) st = concat (map (run inp b) (run inp a st))"
| "run inp (Alt a b) st = run inp a st @ run inp b st"
| "run inp (Opt a) st = run inp a st @ [st]"
| "run inp (Named name a) (s, k) =
     map (\<lambda>(s', k'). (s', k'(name \<mapsto> take (length s - length s') s))) (run inp a (s, k))"
| "run inp Eot (s, k) = (if s = [] then [(s, k)] else [])"
| "run inp Bot (s, k) = (if length s = length inp then [(s, k)] else [])"

text \<open>
  \<^verbatim>\<open>FindStringSubmatch\<close>: the leftmost match, so the search tries the start of the text
  first and then each later position. The result gives the text of each named group;
  \<open>submatch\<close> reads one, the empty string for a group that took no part.
\<close>

fun search :: "regex \<Rightarrow> string \<Rightarrow> string \<Rightarrow> captures option" where
  "search re inp [] =
     (case run inp re ([], Map.empty) of [] \<Rightarrow> None | (rest, k) # others \<Rightarrow> Some k)"
| "search re inp (x # xs) =
     (case run inp re (x # xs, Map.empty) of
        [] \<Rightarrow> search re inp xs
      | (rest, k) # others \<Rightarrow> Some k)"

definition FindStringSubmatch :: "regex \<Rightarrow> string \<Rightarrow> captures option" where
  "FindStringSubmatch re s = search re s s"

definition submatch :: "captures \<Rightarrow> string \<Rightarrow> string" where
  "submatch k name = (case k name of None \<Rightarrow> [] | Some v \<Rightarrow> v)"

text \<open>\<^verbatim>\<open>SubexpNames\<close>, without the unnamed groups: the names in the order the groups open.\<close>

fun SubexpNames :: "regex \<Rightarrow> string list" where
  "SubexpNames (Seq a b) = SubexpNames a @ SubexpNames b"
| "SubexpNames (Alt a b) = SubexpNames a @ SubexpNames b"
| "SubexpNames (Opt a) = SubexpNames a"
| "SubexpNames (Named name a) = name # SubexpNames a"
| "SubexpNames r = []"

section \<open>Parsing a grid reference\<close>

definition digit :: regex where
  "digit = Range CHR ''0'' CHR ''9''"

definition space_opt :: regex where
  "space_opt = Opt (Lit CHR '' '')"

text \<open>The nine letter-pair alternatives of the group \<^verbatim>\<open>myriad\<close>, in the order of the pattern.\<close>

definition myriad_alternatives :: regex where
  "myriad_alternatives =
     Alt (Seq (OneOf ''JH'') (Range CHR ''F'' CHR ''H''))
    (Alt (Seq (OneOf ''NS'') (Range CHR ''A'' CHR ''H''))
    (Alt (Seq (OneOf ''HNS'') (Range CHR ''J'' CHR ''Z''))
    (Alt (Seq (OneOf ''OTY'') (Range CHR ''A'' CHR ''C''))
    (Alt (Seq (OneOf ''OT'') (Range CHR ''F'' CHR ''H''))
    (Alt (Seq (OneOf ''JOT'') (Range CHR ''L'' CHR ''N''))
    (Alt (Seq (OneOf ''JOT'') (Range CHR ''Q'' CHR ''S''))
    (Alt (Seq (OneOf ''JOT'') (Range CHR ''V'' CHR ''X''))
         (Seq (Lit CHR ''X'') (Range CHR ''A'' CHR ''E'')))))))))"

text \<open>The five digit-pair alternatives.\<close>

definition digit_pairs :: regex where
  "digit_pairs =
     Alt (Seq (Named ''easting1'' digit) (Seq space_opt (Named ''northing1'' digit)))
    (Alt (Seq (Named ''easting2'' (rep 2 digit)) (Seq space_opt (Named ''northing2'' (rep 2 digit))))
    (Alt (Seq (Named ''easting3'' (rep 3 digit)) (Seq space_opt (Named ''northing3'' (rep 3 digit))))
    (Alt (Seq (Named ''easting4'' (rep 4 digit)) (Seq space_opt (Named ''northing4'' (rep 4 digit))))
         (Seq (Named ''easting5'' (rep 5 digit)) (Seq space_opt (Named ''northing5'' (rep 5 digit)))))))"

definition ngrCre :: regex where
  "ngrCre =
     Seq Bot
    (Seq (Named ''myriad'' myriad_alternatives)
    (Seq space_opt
    (Seq (Opt digit_pairs) Eot)))"

text \<open>
  The body of the loop over the group names: a named group that matched a non-empty
  text sets the field its name selects.
\<close>

definition assign :: "captures \<Rightarrow> string \<Rightarrow> GridRef \<Rightarrow> GridRef" where
  "assign match name gridRef =
     (if name \<noteq> [] \<and> submatch match name \<noteq> [] then
        (if name = ''myriad'' then gridRef\<lparr>myriad := submatch match name\<rparr>
         else if HasPrefix name ''easting'' then gridRef\<lparr>easting := submatch match name\<rparr>
         else if HasPrefix name ''northing'' then gridRef\<lparr>northing := submatch match name\<rparr>
         else gridRef)
      else gridRef)"

definition NewGridRefFromString :: "string \<Rightarrow> error + GridRef" where
  "NewGridRefFromString str =
     (case (if RuneCountInString str = 2
            then Inr \<lparr>myriad = str, easting = [], northing = []\<rparr>
            else (case FindStringSubmatch ngrCre str of
                    None \<Rightarrow> Inl BadlyFormatted
                  | Some match \<Rightarrow>
                      Inr (fold (assign match) (SubexpNames ngrCre)
                             \<lparr>myriad = [], easting = [], northing = []\<rparr>))) of
        Inl err \<Rightarrow> Inl err
      | Inr gridRef \<Rightarrow>
          if myriadOffsets (myriad gridRef) = None then Inl UnknownMyriad
          else if length (easting gridRef) \<noteq> length (northing gridRef) then Inl MismatchedLengths
          else Inr gridRef)"

section \<open>Vocabulary of the properties\<close>

text \<open>\<^verbatim>\<open>ngrCre.Match\<close>, as the test of the pattern calls it: is there a match.\<close>

definition Match :: "regex \<Rightarrow> string \<Rightarrow> bool" where
  "Match re s = (FindStringSubmatch re s \<noteq> None)"

text \<open>The letters A to Z, which the test of the pattern pairs up.\<close>

definition upper_case :: string where
  "upper_case = ''ABCDEFGHIJKLMNOPQRSTUVWXYZ''"

text \<open>The two-letter strings with a first letter from \<open>xs\<close> and a second letter from \<open>ys\<close>.\<close>

definition letter_pairs :: "string \<Rightarrow> string \<Rightarrow> string list" where
  "letter_pairs xs ys = concat (map (\<lambda>a. map (\<lambda>b. [a, b]) ys) xs)"

text \<open>
  From the specification's words, the allow-listed combinations of its section on
  external interfaces: J with F to H; N, S with A to H; H, N, S with J to Z; O, T, Y with
  A to C; O, T with F to H; J, O, T with L to N, with Q to S and with V to X; X with A to E.
\<close>

definition listed_myriads :: "string list" where
  "listed_myriads =
     letter_pairs ''J'' ''FGH'' @
     letter_pairs ''NS'' ''ABCDEFGH'' @
     letter_pairs ''HNS'' ''JKLMNOPQRSTUVWXYZ'' @
     letter_pairs ''OTY'' ''ABC'' @
     letter_pairs ''OT'' ''FGH'' @
     letter_pairs ''JOT'' ''LMN'' @
     letter_pairs ''JOT'' ''QRS'' @
     letter_pairs ''JOT'' ''VWX'' @
     letter_pairs ''X'' ''ABCDE''"

text \<open>
  The same list with the first class as the pattern has it, \<^verbatim>\<open>[JH][F-H]\<close>: J and H with
  F to H.
\<close>

definition pattern_myriads :: "string list" where
  "pattern_myriads =
     letter_pairs ''JH'' ''FGH'' @
     letter_pairs ''NS'' ''ABCDEFGH'' @
     letter_pairs ''HNS'' ''JKLMNOPQRSTUVWXYZ'' @
     letter_pairs ''OTY'' ''ABC'' @
     letter_pairs ''OT'' ''FGH'' @
     letter_pairs ''JOT'' ''LMN'' @
     letter_pairs ''JOT'' ''QRS'' @
     letter_pairs ''JOT'' ''VWX'' @
     letter_pairs ''X'' ''ABCDE''"

text \<open>
  From the specification's words, the canonical form of a grid reference text: without its
  spaces the text is the two letters of the myriad and then the digits, the easting in
  the first half and the northing in the second; the canonical form is the myriad alone
  when there are no digits, and otherwise the myriad, a space, the easting, a space and
  the northing.
\<close>

definition canonical :: "string \<Rightarrow> string" where
  "canonical s =
     (let t = filter (\<lambda>c. c \<noteq> CHR '' '') s;
          letters = take 2 t;
          digits = drop 2 t;
          half = length digits div 2
      in if digits = [] then letters
         else letters @ '' '' @ take half digits @ '' '' @ drop half digits)"

section \<open>Resolution check\<close>

lemma formatLookup_None: "(formatLookup r = None) = (r < 0 \<or> 5 < r)"
  unfolding formatLookup_def by (simp, arith)

lemma formatLookup_Some:
  "formatLookup r = Some (format, factor) \<Longrightarrow>
     (r = 0 \<and> format = [] \<and> factor = 0) \<or>
     (1 \<le> r \<and> r \<le> 5 \<and> format = [CHR ''%'', CHR ''0'', digit_char (nat r), CHR ''d''] \<and>
      factor = 10 ^ (5 - nat r))"
  unfolding formatLookup_def digit_char_def by (auto split: if_splits)

text \<open>
  C7. For every coordinate, \<open>ToGridRef\<close> fails with the invalid-resolution error exactly
  when the requested resolution is outside 0, 1, 2, 3, 4, 5: the lookup in
  \<open>formatLookup\<close> is the first thing it does, so the coordinate plays no part, and
  for a resolution among 0 to 5 the call gets past the check, whatever it returns then.
\<close>

theorem ToGridRef_resolution_check:
  "(ToGridRef coord r = Inl BadDigitResolution) = (r < 0 \<or> 5 < r)"
proof (cases "formatLookup r")
  case None
  then show ?thesis using formatLookup_None [of r] by (simp add: ToGridRef_def)
next
  case (Some cfg)
  then have "\<not> (r < 0 \<or> 5 < r)" using formatLookup_None [of r] by simp
  moreover from Some have "ToGridRef coord r \<noteq> Inl BadDigitResolution"
    by (cases cfg) (simp add: ToGridRef_def Let_def)
  ultimately show ?thesis by simp
qed

theorem ToGridRef_resolution_check_witness:
  "ToGridRef (gc 530695 180671) (- 1) = Inl BadDigitResolution \<and>
   ToGridRef (gc 530695 180671) 6 = Inl BadDigitResolution \<and>
   ToGridRef (gc 530695 180671) 13 = Inl BadDigitResolution \<and>
   ToGridRef (gc 530695 180671) 0 \<noteq> Inl BadDigitResolution \<and>
   ToGridRef (gc 530695 180671) 5 \<noteq> Inl BadDigitResolution"
  using ToGridRef_resolution_check [of "gc 530695 180671" "- 1"]
        ToGridRef_resolution_check [of "gc 530695 180671" 6]
        ToGridRef_resolution_check [of "gc 530695 180671" 13]
        ToGridRef_resolution_check [of "gc 530695 180671" 0]
        ToGridRef_resolution_check [of "gc 530695 180671" 5]
  by simp

section \<open>Arithmetic and digit strings\<close>

lemma wrap64_id: "- (2 ^ 63) \<le> x \<Longrightarrow> x < 2 ^ 63 \<Longrightarrow> wrap64 x = x"
  by (simp add: wrap64_def)

lemma go_quo_nonneg: "0 \<le> a \<Longrightarrow> 0 < b \<Longrightarrow> go_quo a b = a div b"
  by (simp add: go_quo_def)

lemma go_rem_nonneg: "0 \<le> a \<Longrightarrow> 0 < b \<Longrightarrow> go_rem a b = a mod b"
  by (simp add: go_rem_def go_quo_nonneg minus_mult_div_eq_mod)

lemma go_quo_neg: "a < 0 \<Longrightarrow> 0 < b \<Longrightarrow> go_quo a b \<le> 0"
  by (simp add: go_quo_def pos_imp_zdiv_nonneg_iff)

lemma byte_digit_char: "d < 10 \<Longrightarrow> byte (digit_char d) = 48 + d"
proof -
  assume "d < 10"
  then have "d \<in> {0, 1, 2, 3, 4, 5, 6, 7, 8, 9}" by auto
  then show ?thesis by (auto simp: byte_def digit_char_def)
qed

lemma is_digit_iff: "is_digit c = (48 \<le> byte c \<and> byte c \<le> 57)"
  by (simp add: is_digit_def byte_def)

lemma is_digit_digit_char: "d < 10 \<Longrightarrow> is_digit (digit_char d)"
  by (simp add: is_digit_iff byte_digit_char)

lemma digit_val_digit_char: "d < 10 \<Longrightarrow> digit_val (digit_char d) = d"
  by (simp add: digit_val_def byte_digit_char) (simp add: byte_def)

lemma digit_val_less: "is_digit c \<Longrightarrow> digit_val c < 10"
  by (auto simp: is_digit_iff digit_val_def byte_def)

lemma byte_inject: "byte a = byte b \<Longrightarrow> a = b"
  by (simp add: byte_def)

lemma digit_val_inject:
  assumes "is_digit a" and "is_digit b" and "digit_val a = digit_val b"
  shows "a = b"
proof (rule byte_inject)
  from assms show "byte a = byte b"
    unfolding is_digit_iff digit_val_def by (simp add: byte_def [of "CHR ''0''"]) arith
qed

lemma dec_snoc: "dec (ds @ [c]) = 10 * dec ds + digit_val c"
  by (simp add: dec_def)

lemma dec_Nil: "dec [] = 0"
  by (simp add: dec_def)

lemma dec_less: "list_all is_digit ds \<Longrightarrow> dec ds < 10 ^ length ds"
proof (induction ds rule: rev_induct)
  case Nil
  show ?case by (simp add: dec_Nil)
next
  case (snoc c ds)
  then have "dec ds < 10 ^ length ds" and "digit_val c < 10"
    by (simp_all add: digit_val_less)
  then have "10 * dec ds + digit_val c < 10 * 10 ^ length ds" by arith
  then show ?case by (simp add: dec_snoc)
qed

lemma dec_inject:
  "length xs = length ys \<Longrightarrow> list_all is_digit xs \<Longrightarrow> list_all is_digit ys \<Longrightarrow>
   dec xs = dec ys \<Longrightarrow> xs = ys"
proof (induction xs arbitrary: ys rule: rev_induct)
  case Nil
  then show ?case by simp
next
  case (snoc x xs)
  from snoc.prems(1) obtain y ys' where ys: "ys = ys' @ [y]"
    by (cases ys rule: rev_cases) auto
  from snoc.prems ys have dx: "digit_val x < 10" and dy: "digit_val y < 10"
    by (simp_all add: digit_val_less)
  from snoc.prems(4) ys have eq: "10 * dec xs + digit_val x = 10 * dec ys' + digit_val y"
    by (simp add: dec_snoc)
  from eq dx dy have "dec xs = dec ys'" and "digit_val x = digit_val y" by arith+
  moreover from snoc.prems ys have "length xs = length ys'" "list_all is_digit xs" "list_all is_digit ys'"
    "is_digit x" "is_digit y" by simp_all
  ultimately show ?case using ys snoc.IH [of ys'] digit_val_inject by simp
qed

lemma dec_replicate_zero: "dec (replicate k CHR ''0'' @ ds) = dec ds"
proof (induction k)
  case 0
  show ?case by simp
next
  case (Suc k)
  have "dec (CHR ''0'' # replicate k CHR ''0'' @ ds) = dec (replicate k CHR ''0'' @ ds)"
    by (simp add: dec_def digit_val_def byte_def)
  with Suc show ?case by simp
qed

lemma itoa_digits: "list_all is_digit (itoa n)"
proof (induction n rule: itoa.induct)
  case (1 n)
  then show ?case by (subst itoa.simps) (simp add: is_digit_digit_char)
qed

lemma dec_itoa: "dec (itoa n) = n"
proof (induction n rule: itoa.induct)
  case (1 n)
  show ?case
  proof (cases "n < 10")
    case True
    then show ?thesis by (subst itoa.simps) (simp add: dec_def digit_val_digit_char)
  next
    case False
    with 1 have "dec (itoa (n div 10)) = n div 10" by simp
    with False show ?thesis by (subst itoa.simps) (simp add: dec_snoc digit_val_digit_char)
  qed
qed

lemma length_itoa: "0 < w \<Longrightarrow> n < 10 ^ w \<Longrightarrow> length (itoa n) \<le> w"
proof (induction n arbitrary: w rule: itoa.induct)
  case (1 n)
  show ?case
  proof (cases "n < 10")
    case True
    with 1 show ?thesis by (subst itoa.simps) simp
  next
    case False
    from 1(3) False have "w \<noteq> 1" by auto
    with 1(2) obtain v where w: "w = Suc v" and v: "0 < v"
      by (cases w) auto
    with 1(3) have "n div 10 < 10 ^ v" by (simp add: less_mult_imp_div_less mult.commute)
    with 1(1) [of v] False v have "length (itoa (n div 10)) \<le> v" by simp
    with False w show ?thesis by (subst itoa.simps) simp
  qed
qed

lemma zero_pad_props:
  assumes "0 \<le> n" and "n < 10 ^ w" and "0 < w"
  shows "length (zero_pad w n) = w" and "list_all is_digit (zero_pad w n)"
    and "dec (zero_pad w n) = nat n"
proof -
  from assms have "nat n < 10 ^ w" by (simp add: nat_less_iff)
  with assms(3) have len: "length (itoa (nat n)) \<le> w" by (rule length_itoa)
  from assms(1) have zp: "zero_pad w n = replicate (w - length (itoa (nat n))) CHR ''0'' @ itoa (nat n)"
    by (simp add: zero_pad_def)
  from len show "length (zero_pad w n) = w" by (simp add: zp)
  have "is_digit CHR ''0''" by (simp add: is_digit_def byte_def)
  then show "list_all is_digit (zero_pad w n)"
    using itoa_digits [of "nat n"] by (auto simp: zp list_all_iff)
  show "dec (zero_pad w n) = nat n"
    by (simp add: zp dec_replicate_zero dec_itoa)
qed

lemma zero_pad_dec:
  assumes "ds \<noteq> []" and "list_all is_digit ds"
  shows "zero_pad (length ds) (int (dec ds)) = ds"
proof -
  from assms(2) have "int (dec ds) < 10 ^ length ds"
    using dec_less [of ds] by (metis of_nat_less_iff of_nat_numeral of_nat_power)
  moreover from assms(1) have "0 < length ds" by simp
  ultimately have "length (zero_pad (length ds) (int (dec ds))) = length ds"
    "list_all is_digit (zero_pad (length ds) (int (dec ds)))"
    "dec (zero_pad (length ds) (int (dec ds))) = dec ds"
    using zero_pad_props [of "int (dec ds)" "length ds"] by simp_all
  with assms(2) show ?thesis by (rule_tac dec_inject) simp_all
qed

lemma Atoi_digits:
  assumes "ds \<noteq> []" and "list_all is_digit ds" and "length ds \<le> 18"
  shows "Atoi ds = Some (int (dec ds))"
proof -
  from assms(1) obtain c cs where ds: "ds = c # cs" by (cases ds) auto
  with assms(2) have "is_digit c" by simp
  then have sign: "c \<noteq> CHR ''-''" "c \<noteq> CHR ''+''" by (auto simp: is_digit_iff byte_def)
  have "dec ds < 10 ^ length ds" using assms(2) by (rule dec_less)
  also have "(10::nat) ^ length ds \<le> 10 ^ 18" using assms(3) by (intro power_increasing) simp_all
  finally have "int (dec ds) < 10 ^ 18" by (metis of_nat_less_iff of_nat_numeral of_nat_power)
  then have "int (dec ds) \<le> 2 ^ 63 - 1" by simp
  with sign assms(2) show ?thesis
    unfolding ds Atoi_def by (simp add: Let_def)
qed

section \<open>The two myriad tables agree\<close>

lemma table_to_offsets_all:
  "list_all (\<lambda>i. list_all (\<lambda>j.
      myriadOffsets (myriadTable ! i ! j) = Some (gc (100000 * int i) (100000 * (int j - 1))))
        [0..<15]) [0..<8]"
  by code_simp

lemma offsets_to_table_all:
  "list_all (\<lambda>(k, v).
      0 \<le> Easting v \<and> Easting v < 800000 \<and> - 100000 \<le> Northing v \<and> Northing v < 1400000 \<and>
      Easting v mod 100000 = 0 \<and> Northing v mod 100000 = 0 \<and>
      myriadTable ! nat (Easting v div 100000) ! nat ((Northing v + 100000) div 100000) = k)
     myriadOffsets_entries"
  by code_simp

lemma length_myriadTable: "length myriadTable = 8"
  by (simp add: myriadTable_def)

lemma length_myriadTable_row: "i < 8 \<Longrightarrow> length (myriadTable ! i) = 15"
proof -
  have "list_all (\<lambda>row. length row = 15) myriadTable" by (simp add: myriadTable_def)
  moreover assume "i < 8"
  ultimately show ?thesis by (simp add: list_all_length length_myriadTable)
qed

lemma table_to_offsets:
  assumes "i < 8" and "j < 15"
  shows "myriadOffsets (myriadTable ! i ! j) = Some (gc (100000 * int i) (100000 * (int j - 1)))"
  using table_to_offsets_all assms by (simp add: list_all_iff)

lemma offsets_to_table:
  assumes "myriadOffsets k = Some v"
  shows "0 \<le> Easting v" and "Easting v < 800000" and "- 100000 \<le> Northing v"
    and "Northing v < 1400000" and "Easting v mod 100000 = 0" and "Northing v mod 100000 = 0"
    and "myriadTable ! nat (Easting v div 100000) ! nat ((Northing v + 100000) div 100000) = k"
proof -
  let ?P = "\<lambda>(k, v).
      0 \<le> Easting v \<and> Easting v < 800000 \<and> - 100000 \<le> Northing v \<and> Northing v < 1400000 \<and>
      Easting v mod 100000 = 0 \<and> Northing v mod 100000 = 0 \<and>
      myriadTable ! nat (Easting v div 100000) ! nat ((Northing v + 100000) div 100000) = k"
  from assms have mem: "(k, v) \<in> set myriadOffsets_entries"
    unfolding myriadOffsets_def by (rule map_of_SomeD)
  have "\<forall>x\<in>set myriadOffsets_entries. ?P x"
    using offsets_to_table_all by (simp only: list_all_iff)
  from this mem have "?P (k, v)" by (rule bspec)
  then show "0 \<le> Easting v" and "Easting v < 800000" and "- 100000 \<le> Northing v"
    and "Northing v < 1400000" and "Easting v mod 100000 = 0" and "Northing v mod 100000 = 0"
    and "myriadTable ! nat (Easting v div 100000) ! nat ((Northing v + 100000) div 100000) = k"
    by (simp_all only: case_prod_conv)
qed

section \<open>The conversions on well-formed values\<close>

lemma pow10_factor_le5: "n \<le> 5 \<Longrightarrow> pow10_factor n = 10 ^ (5 - n)"
  by (simp add: pow10_factor_def)

lemma scaled_less:
  assumes "list_all is_digit ds" and "length ds \<le> 5"
  shows "int (dec ds) * 10 ^ (5 - length ds) < 100000"
proof -
  have "dec ds < 10 ^ length ds" using assms(1) by (rule dec_less)
  then have "dec ds * 10 ^ (5 - length ds) < 10 ^ length ds * 10 ^ (5 - length ds)"
    by simp
  also have "\<dots> = 10 ^ 5" using assms(2) by (simp flip: power_add)
  finally have "int (dec ds * 10 ^ (5 - length ds)) < int (10 ^ 5)" by (simp only: of_nat_less_iff)
  then show ?thesis by simp
qed

lemma Atoi_short:
  assumes "list_all is_digit ds" and "length ds \<le> 5" and "0 < length ds"
  shows "Atoi ds = Some (int (dec ds))"
  using assms by (intro Atoi_digits) auto

lemma wrap64_sum:
  assumes "0 \<le> x" and "x < 100000" and "- 100000 \<le> y" and "y < 1400000"
  shows "wrap64 (wrap64 x + y) = y + x"
proof -
  from assms(1,2) have "wrap64 x = x" by (intro wrap64_id) simp_all
  moreover from assms have "wrap64 (x + y) = x + y" by (intro wrap64_id) simp_all
  ultimately show ?thesis by simp
qed

lemma ToLatLon_digits:
  assumes off: "myriadOffsets (myriad g) = Some off"
    and len: "length (easting g) = length (northing g)" "length (easting g) \<le> 5"
    and dig: "list_all is_digit (easting g)" "list_all is_digit (northing g)"
  shows "ToLatLon g =
    Inr (gc (Easting off + int (dec (easting g)) * 10 ^ (5 - length (easting g)))
            (Northing off + int (dec (northing g)) * 10 ^ (5 - length (easting g))))"
proof -
  let ?n = "length (easting g)"
  let ?e = "int (dec (easting g))"
  let ?m = "int (dec (northing g))"
  have e: "?e * 10 ^ (5 - ?n) < 100000"
    using scaled_less [OF dig(1) len(2)] .
  have m: "?m * 10 ^ (5 - ?n) < 100000"
    using scaled_less [OF dig(2)] len by simp
  note o = offsets_to_table(1-4) [OF off]
  have we: "wrap64 (wrap64 (?e * 10 ^ (5 - ?n)) + Easting off) = Easting off + ?e * 10 ^ (5 - ?n)"
    using e o by (intro wrap64_sum) simp_all
  have wm: "wrap64 (wrap64 (?m * 10 ^ (5 - ?n)) + Northing off) = Northing off + ?m * 10 ^ (5 - ?n)"
    using m o by (intro wrap64_sum) simp_all
  have f: "pow10_factor ?n = 10 ^ (5 - ?n)"
    using len(2) by (simp add: pow10_factor_le5)
  have parsed: "(if 0 < ?n
          then (case Atoi (easting g) of
                  None \<Rightarrow> Inl InvalidEastingDigits
                | Some e \<Rightarrow>
                    (case Atoi (northing g) of
                       None \<Rightarrow> Inl InvalidNorthingDigits
                     | Some n \<Rightarrow> Inr (e, n)))
          else Inr (0, 0)) = Inr (?e, ?m)"
  proof (cases "0 < ?n")
    case True
    with dig len have "Atoi (easting g) = Some ?e" "Atoi (northing g) = Some ?m"
      by (simp_all add: Atoi_short)
    with True show ?thesis by simp
  next
    case False
    with len(1) have "easting g = []" "northing g = []" by simp_all
    then show ?thesis by (simp add: dec_Nil)
  qed
  have same: "(length (easting g) \<noteq> length (northing g)) = False"
    using len(1) by simp
  show ?thesis
    unfolding ToLatLon_def parsed off f Let_def
    by (simp only: we wm same if_False option.case sum.case prod.case)
qed

lemma ToGridRef_unfold:
  assumes "formatLookup r = Some (format, factor)"
  shows "ToGridRef c r =
    (if Easting c < 0 then Inl WestOfExtents
     else if 8 \<le> go_quo (Easting c) 100000 then Inl EastOfExtents
     else if wrap64 (Northing c + 100000) < 0 then Inl SouthOfExtents
     else if 15 \<le> go_quo (wrap64 (Northing c + 100000)) 100000 then Inl NorthOfExtents
     else if factor = 0
       then Inr \<lparr>myriad = myriadTable ! nat (go_quo (Easting c) 100000) !
                    nat (go_quo (wrap64 (Northing c + 100000)) 100000),
                 easting = [], northing = []\<rparr>
       else Inr \<lparr>myriad = myriadTable ! nat (go_quo (Easting c) 100000) !
                    nat (go_quo (wrap64 (Northing c + 100000)) 100000),
                 easting = Sprintf_d format (go_rem (Easting c) 100000 div factor),
                 northing = Sprintf_d format (go_rem (wrap64 (Northing c + 100000)) 100000 div factor)\<rparr>)"
proof (cases "Easting c < 0 \<or> 8 \<le> go_quo (Easting c) 100000")
  case True
  with assms show ?thesis
    by (auto simp add: ToGridRef_def Let_def length_myriadTable)
next
  case False
  then have "0 \<le> Easting c" and q: "go_quo (Easting c) 100000 < 8" by simp_all
  then have "0 \<le> go_quo (Easting c) 100000" by (simp add: go_quo_nonneg)
  with q have "nat (go_quo (Easting c) 100000) < 8" by simp
  then have "length (myriadTable ! nat (go_quo (Easting c) 100000)) = 15"
    by (rule length_myriadTable_row)
  with assms False show ?thesis
    by (simp add: ToGridRef_def Let_def length_myriadTable)
qed

lemma Sprintf_d_width:
  assumes "1 \<le> r" and "r \<le> 5"
  shows "Sprintf_d [CHR ''%'', CHR ''0'', digit_char (nat r), CHR ''d''] v = zero_pad (nat r) v"
proof -
  from assms have "nat r < 10" by simp
  then show ?thesis
    by (simp add: Sprintf_d_def is_digit_digit_char digit_val_digit_char)
qed

lemma ToGridRef_inside:
  assumes "0 \<le> Easting c" and "Easting c < 800000"
    and "- 100000 \<le> Northing c" and "Northing c < 1400000"
  shows "ToGridRef c 0 =
     Inr \<lparr>myriad = myriadTable ! nat (Easting c div 100000) ! nat ((Northing c + 100000) div 100000),
          easting = [], northing = []\<rparr>"
    and "1 \<le> r \<Longrightarrow> r \<le> 5 \<Longrightarrow> ToGridRef c r =
     Inr \<lparr>myriad = myriadTable ! nat (Easting c div 100000) ! nat ((Northing c + 100000) div 100000),
          easting = zero_pad (nat r) (Easting c mod 100000 div 10 ^ (5 - nat r)),
          northing = zero_pad (nat r) ((Northing c + 100000) mod 100000 div 10 ^ (5 - nat r))\<rparr>"
proof -
  from assms(3,4) have w: "wrap64 (Northing c + 100000) = Northing c + 100000"
    by (intro wrap64_id) simp_all
  from assms(1,2) have i: "go_quo (Easting c) 100000 = Easting c div 100000"
    "go_rem (Easting c) 100000 = Easting c mod 100000"
    "\<not> 8 \<le> Easting c div 100000"
    by (simp_all add: go_quo_nonneg go_rem_nonneg)
  from assms(3,4) have j: "go_quo (Northing c + 100000) 100000 = (Northing c + 100000) div 100000"
    "go_rem (Northing c + 100000) 100000 = (Northing c + 100000) mod 100000"
    "\<not> 15 \<le> (Northing c + 100000) div 100000"
    by (simp_all add: go_quo_nonneg go_rem_nonneg)
  have z: "formatLookup 0 = Some ([], 0)" by (simp add: formatLookup_def)
  from assms(1,3) show "ToGridRef c 0 =
     Inr \<lparr>myriad = myriadTable ! nat (Easting c div 100000) ! nat ((Northing c + 100000) div 100000),
          easting = [], northing = []\<rparr>"
    using i j w by (simp add: ToGridRef_unfold [OF z])
  assume r: "1 \<le> r" "r \<le> 5"
  then have "formatLookup r \<noteq> None" by (simp add: formatLookup_None)
  then obtain format factor where cfg: "formatLookup r = Some (format, factor)" by auto
  from formatLookup_Some [OF cfg] r have f: "format = [CHR ''%'', CHR ''0'', digit_char (nat r), CHR ''d'']"
    "factor = 10 ^ (5 - nat r)" by simp_all
  from assms(1,3) show "ToGridRef c r =
     Inr \<lparr>myriad = myriadTable ! nat (Easting c div 100000) ! nat ((Northing c + 100000) div 100000),
          easting = zero_pad (nat r) (Easting c mod 100000 div 10 ^ (5 - nat r)),
          northing = zero_pad (nat r) ((Northing c + 100000) mod 100000 div 10 ^ (5 - nat r))\<rparr>"
    using i j w f Sprintf_d_width [OF r] by (simp add: ToGridRef_unfold [OF cfg])
qed

lemma int_div_less:
  assumes "0 < c" and "a < b * c"
  shows "(a::int) div c < b"
proof (rule ccontr)
  assume "\<not> a div c < b"
  then have "b \<le> a div c" by simp
  with assms(1) have "b * c \<le> a div c * c" by (simp add: mult_right_mono)
  also have "\<dots> = a - a mod c" by (simp add: minus_mod_eq_div_mult)
  also have "\<dots> \<le> a" using assms(1) by simp
  finally show False using assms(2) by simp
qed

lemma cell_digits:
  assumes "1 \<le> r" and "r \<le> 5"
  shows "0 \<le> x mod 100000 div 10 ^ (5 - nat r)" and "(x::int) mod 100000 div 10 ^ (5 - nat r) < 10 ^ nat r"
proof -
  show "0 \<le> x mod 100000 div 10 ^ (5 - nat r)" by (simp add: pos_imp_zdiv_nonneg_iff)
  have "(100000::int) = 10 ^ nat r * 10 ^ (5 - nat r)"
    using assms by (simp flip: power_add)
  moreover have "x mod 100000 < 100000" by simp
  ultimately have "x mod 100000 < 10 ^ nat r * 10 ^ (5 - nat r)" by simp
  then show "x mod 100000 div 10 ^ (5 - nat r) < 10 ^ nat r"
    by (intro int_div_less) simp_all
qed

lemma Edinburgh:
  "ToGridRef (gc 326002 673723) 2 = Inr \<lparr>myriad = ''NT'', easting = ''26'', northing = ''73''\<rparr>"
  by code_simp

section \<open>Grid reference to coordinate: the value\<close>

text \<open>
  C1. For a grid reference whose myriad is a key of \<open>myriadOffsets\<close> and whose easting
  and northing are strings of decimal digits of one length \<open>n \<le> 5\<close>, \<open>ToLatLon\<close> succeeds
  with the offset of the myriad plus the value of each digit string times \<open>10 ^ (5 - n)\<close>.
  With \<open>n = 0\<close> nothing is added: the result is the offset itself.
\<close>

theorem ToLatLon_value:
  assumes "myriadOffsets (myriad g) = Some off"
    and "length (easting g) = n" and "length (northing g) = n" and "n \<le> 5"
    and "list_all is_digit (easting g)" and "list_all is_digit (northing g)"
  shows "ToLatLon g =
           Inr (gc (Easting off + int (dec (easting g)) * 10 ^ (5 - n))
                   (Northing off + int (dec (northing g)) * 10 ^ (5 - n))) \<and>
         (n = 0 \<longrightarrow> ToLatLon g = Inr off)"
proof -
  from assms have v: "ToLatLon g =
           Inr (gc (Easting off + int (dec (easting g)) * 10 ^ (5 - n))
                   (Northing off + int (dec (northing g)) * 10 ^ (5 - n)))"
    using ToLatLon_digits [of g off] by simp
  moreover have "ToLatLon g = Inr off" if "n = 0"
  proof -
    from that assms have "easting g = []" "northing g = []" by simp_all
    with v show ?thesis by (simp add: dec_Nil)
  qed
  ultimately show ?thesis by simp
qed

theorem ToLatLon_value_witness:
  "ToLatLon \<lparr>myriad = ''SP'', easting = ''08'', northing = ''86''\<rparr> = Inr (gc 408000 286000) \<and>
   ToLatLon \<lparr>myriad = ''TQ'', easting = [], northing = []\<rparr> = Inr (gc 500000 100000)"
proof -
  have o: "myriadOffsets ''SP'' = Some (gc 400000 200000)" "myriadOffsets ''TQ'' = Some (gc 500000 100000)"
    by (simp_all add: myriadOffsets_def myriadOffsets_entries_def)
  have d: "list_all is_digit ''08''" "list_all is_digit ''86''"
    by (simp_all add: is_digit_def byte_def)
  have v: "dec ''08'' = 8" "dec ''86'' = 86" by (simp_all add: dec_def digit_val_def byte_def)
  from ToLatLon_value [of "\<lparr>myriad = ''SP'', easting = ''08'', northing = ''86''\<rparr>" "gc 400000 200000" 2]
    ToLatLon_value [of "\<lparr>myriad = ''TQ'', easting = [], northing = []\<rparr>" "gc 500000 100000" 0]
    o d v
  show ?thesis by (simp add: dec_Nil)
qed

section \<open>Coordinate to grid reference: truncation\<close>

text \<open>
  C2. For a coordinate inside the myriad table (easting from 0 up to 799999, northing from
  -100000 up to 1399999) and a resolution \<open>r\<close> from 1 to 5, \<open>ToGridRef\<close> returns the myriad
  of the table cell and, as easting and northing, the numbers
  \<open>(easting mod 100000) div 10 ^ (5 - r)\<close> and \<open>((northing + 100000) mod 100000) div 10 ^ (5 - r)\<close>
  printed with zeros in front to exactly \<open>r\<close> decimal digits. The digits are cut off, not
  rounded: the coordinate (326002, 673723) at resolution 2 is NT 26 73 and not NT 26 74.
\<close>

theorem ToGridRef_truncates:
  assumes "0 \<le> Easting c" and "Easting c < 800000"
    and "- 100000 \<le> Northing c" and "Northing c < 1400000"
    and "1 \<le> r" and "r \<le> 5"
  shows "ToGridRef c r =
      Inr \<lparr>myriad = myriadTable ! nat (Easting c div 100000) ! nat ((Northing c + 100000) div 100000),
           easting = zero_pad (nat r) (Easting c mod 100000 div 10 ^ (5 - nat r)),
           northing = zero_pad (nat r) ((Northing c + 100000) mod 100000 div 10 ^ (5 - nat r))\<rparr> \<and>
    length (zero_pad (nat r) (Easting c mod 100000 div 10 ^ (5 - nat r))) = nat r \<and>
    list_all is_digit (zero_pad (nat r) (Easting c mod 100000 div 10 ^ (5 - nat r))) \<and>
    int (dec (zero_pad (nat r) (Easting c mod 100000 div 10 ^ (5 - nat r)))) =
      Easting c mod 100000 div 10 ^ (5 - nat r) \<and>
    length (zero_pad (nat r) ((Northing c + 100000) mod 100000 div 10 ^ (5 - nat r))) = nat r \<and>
    list_all is_digit (zero_pad (nat r) ((Northing c + 100000) mod 100000 div 10 ^ (5 - nat r))) \<and>
    int (dec (zero_pad (nat r) ((Northing c + 100000) mod 100000 div 10 ^ (5 - nat r)))) =
      (Northing c + 100000) mod 100000 div 10 ^ (5 - nat r) \<and>
    ToGridRef (gc 326002 673723) 2 = Inr \<lparr>myriad = ''NT'', easting = ''26'', northing = ''73''\<rparr> \<and>
    ToGridRef (gc 326002 673723) 2 \<noteq> Inr \<lparr>myriad = ''NT'', easting = ''26'', northing = ''74''\<rparr>"
proof -
  from assms(5) have w: "0 < nat r" by simp
  note e = cell_digits [OF assms(5,6), of "Easting c"]
  note n = cell_digits [OF assms(5,6), of "Northing c + 100000"]
  note pe = zero_pad_props [OF e w]
  note pn = zero_pad_props [OF n w]
  from e(1) pe(3) have de: "int (dec (zero_pad (nat r) (Easting c mod 100000 div 10 ^ (5 - nat r)))) =
      Easting c mod 100000 div 10 ^ (5 - nat r)" by simp
  from n(1) pn(3) have dn: "int (dec (zero_pad (nat r) ((Northing c + 100000) mod 100000 div 10 ^ (5 - nat r)))) =
      (Northing c + 100000) mod 100000 div 10 ^ (5 - nat r)" by simp
  show ?thesis
    by (simp only: ToGridRef_inside(2) [OF assms] pe(1,2) pn(1,2) de dn Edinburgh simp_thms)
      simp
qed

theorem ToGridRef_truncates_witness:
  "ToGridRef (gc 146298 529866) 3 = Inr \<lparr>myriad = ''NW'', easting = ''462'', northing = ''298''\<rparr>"
proof -
  have "myriadTable ! 1 ! 6 = ''NW''" by (simp add: myriadTable_def)
  moreover have "zero_pad 3 462 = ''462''" "zero_pad 3 298 = ''298''"
    by (simp_all add: zero_pad_def itoa.simps digit_char_def)
  ultimately show ?thesis
    using ToGridRef_truncates [of "gc 146298 529866" 3] by simp
qed

section \<open>Coordinate to grid reference: the extents\<close>

text \<open>
  C8. For every resolution from 0 to 5 the four boundary checks of \<open>ToGridRef\<close> answer in
  the order of the source, each with the error of its direction: an easting below 0 is
  west; a row index \<open>easting / 100000\<close> at or beyond the number of rows is east; then, the
  row being selected, \<open>northing + 100000 < 0\<close> is south, and a column index
  \<open>(northing + 100000) / 100000\<close> at or beyond the length of that row is north. The sum and
  the quotients are Go's. A coordinate inside the table (easting from 0 up to 799999,
  northing from -100000 up to 1399999) gets a grid reference and none of these errors.
\<close>

theorem ToGridRef_extents:
  assumes "0 \<le> r" and "r \<le> 5"
  shows "(Easting c < 0 \<longrightarrow> ToGridRef c r = Inl WestOfExtents) \<and>
    (int (length myriadTable) \<le> go_quo (Easting c) 100000 \<longrightarrow> ToGridRef c r = Inl EastOfExtents) \<and>
    (0 \<le> Easting c \<and> go_quo (Easting c) 100000 < int (length myriadTable) \<and>
       wrap64 (Northing c + 100000) < 0 \<longrightarrow> ToGridRef c r = Inl SouthOfExtents) \<and>
    (0 \<le> Easting c \<and> go_quo (Easting c) 100000 < int (length myriadTable) \<and>
       int (length (myriadTable ! nat (go_quo (Easting c) 100000))) \<le>
         go_quo (wrap64 (Northing c + 100000)) 100000 \<longrightarrow> ToGridRef c r = Inl NorthOfExtents) \<and>
    (0 \<le> Easting c \<and> Easting c < 800000 \<and> - 100000 \<le> Northing c \<and> Northing c < 1400000 \<longrightarrow>
       (\<exists>g. ToGridRef c r = Inr g))"
proof -
  from assms have "formatLookup r \<noteq> None" by (simp add: formatLookup_None)
  then obtain format factor where cfg: "formatLookup r = Some (format, factor)" by auto
  note u = ToGridRef_unfold [OF cfg, of c]
  have west: "ToGridRef c r = Inl WestOfExtents" if "Easting c < 0"
    using that by (simp add: u)
  have east: "ToGridRef c r = Inl EastOfExtents" if "int (length myriadTable) \<le> go_quo (Easting c) 100000"
  proof -
    from that have q: "8 \<le> go_quo (Easting c) 100000" by (simp add: length_myriadTable)
    have "\<not> Easting c < 0"
    proof
      assume "Easting c < 0"
      then have "go_quo (Easting c) 100000 \<le> 0" by (rule go_quo_neg) simp
      with q show False by simp
    qed
    with q show ?thesis by (simp add: u)
  qed
  have row: "length (myriadTable ! nat (go_quo (Easting c) 100000)) = 15"
    if "0 \<le> Easting c" "go_quo (Easting c) 100000 < int (length myriadTable)"
  proof -
    from that have "nat (go_quo (Easting c) 100000) < 8"
      by (simp add: length_myriadTable go_quo_nonneg)
    then show ?thesis by (rule length_myriadTable_row)
  qed
  have south: "ToGridRef c r = Inl SouthOfExtents"
    if "0 \<le> Easting c" "go_quo (Easting c) 100000 < int (length myriadTable)"
      "wrap64 (Northing c + 100000) < 0"
    using that by (simp add: u length_myriadTable)
  have north: "ToGridRef c r = Inl NorthOfExtents"
    if "0 \<le> Easting c" "go_quo (Easting c) 100000 < int (length myriadTable)"
      "int (length (myriadTable ! nat (go_quo (Easting c) 100000))) \<le>
         go_quo (wrap64 (Northing c + 100000)) 100000"
  proof -
    from that row have q: "15 \<le> go_quo (wrap64 (Northing c + 100000)) 100000" by simp
    have "\<not> wrap64 (Northing c + 100000) < 0"
    proof
      assume "wrap64 (Northing c + 100000) < 0"
      then have "go_quo (wrap64 (Northing c + 100000)) 100000 \<le> 0" by (rule go_quo_neg) simp
      with q show False by simp
    qed
    with that(1,2) q show ?thesis by (simp add: u length_myriadTable)
  qed
  have inside: "\<exists>g. ToGridRef c r = Inr g"
    if "0 \<le> Easting c" "Easting c < 800000" "- 100000 \<le> Northing c" "Northing c < 1400000"
  proof (cases "r = 0")
    case True
    with ToGridRef_inside(1) [OF that] show ?thesis by simp
  next
    case False
    with assms have "1 \<le> r" by simp
    with ToGridRef_inside(2) [OF that _ assms(2)] show ?thesis by simp
  qed
  from west east south north inside show ?thesis by blast
qed

theorem ToGridRef_extents_witness:
  "ToGridRef (gc (- 1) (- 100000)) 1 = Inl WestOfExtents \<and>
   ToGridRef (gc 800000 1399999) 2 = Inl EastOfExtents \<and>
   ToGridRef (gc 0 (- 100001)) 3 = Inl SouthOfExtents \<and>
   ToGridRef (gc 799999 1400000) 4 = Inl NorthOfExtents \<and>
   (\<exists>g. ToGridRef (gc 0 (- 100000)) 5 = Inr g) \<and>
   (\<exists>g. ToGridRef (gc 799999 1399999) 0 = Inr g)"
proof -
  have len: "length myriadTable = 8" "length (myriadTable ! 7) = 15" "length (myriadTable ! 0) = 15"
    by (simp_all add: myriadTable_def)
  have q: "go_quo (- 1) 100000 = 0" "go_quo 800000 100000 = 8" "go_quo 0 100000 = 0"
    "go_quo 799999 100000 = 7" "go_quo 1500000 100000 = 15"
    by (simp_all add: go_quo_def)
  have w: "wrap64 (- 1) = - 1" "wrap64 1500000 = 1500000"
    by (simp_all add: wrap64_def)
  show ?thesis
    using ToGridRef_extents [of 1 "gc (- 1) (- 100000)"]
      ToGridRef_extents [of 2 "gc 800000 1399999"]
      ToGridRef_extents [of 3 "gc 0 (- 100001)"]
      ToGridRef_extents [of 4 "gc 799999 1400000"]
      ToGridRef_extents [of 5 "gc 0 (- 100000)"]
      ToGridRef_extents [of 0 "gc 799999 1399999"]
    by (simp add: len q w)
qed

section \<open>Round trip through the coordinate\<close>

lemma ToLatLon_InrD:
  assumes "ToLatLon g = Inr c"
  shows "\<exists>off. myriadOffsets (myriad g) = Some off" and "length (easting g) = length (northing g)"
proof -
  from assms show "\<exists>off. myriadOffsets (myriad g) = Some off"
    by (cases "myriadOffsets (myriad g)") (simp_all add: ToLatLon_def)
  from assms show "length (easting g) = length (northing g)"
    by (cases "myriadOffsets (myriad g)") (simp_all add: ToLatLon_def split: if_splits)
qed

lemma cell_arith:
  fixes a x :: int
  assumes "a mod 100000 = 0" and "0 \<le> x" and "x < 100000"
  shows "(a + x) div 100000 = a div 100000" and "(a + x) mod 100000 = x"
proof -
  from assms(1) obtain k where k: "a = 100000 * k" by (auto simp: mod_eq_0_iff_dvd)
  from assms(2,3) have "x div 100000 = 0" "x mod 100000 = x" by simp_all
  then show "(a + x) div 100000 = a div 100000" and "(a + x) mod 100000 = x"
    by (simp_all add: k)
qed

lemma cell_bound:
  fixes a x :: int
  assumes "a mod 100000 = 0" and "a < b * 100000" and "x < 100000"
  shows "a + x < b * 100000"
proof -
  from assms(1) obtain k where k: "a = 100000 * k" by (auto simp: mod_eq_0_iff_dvd)
  with assms(2) have "k < b" by simp
  then have "k + 1 \<le> b" by simp
  then have "100000 * (k + 1) \<le> 100000 * b" by simp
  with k assms(3) show ?thesis by simp
qed

lemma ToGridRef_offset_cell:
  assumes off: "myriadOffsets k = Some off"
    and x: "0 \<le> x" "x < 100000" and y: "0 \<le> y" "y < 100000"
  shows "ToGridRef (gc (Easting off + x) (Northing off + y)) 0 =
           Inr \<lparr>myriad = k, easting = [], northing = []\<rparr>"
    and "1 \<le> r \<Longrightarrow> r \<le> 5 \<Longrightarrow>
         ToGridRef (gc (Easting off + x) (Northing off + y)) r =
           Inr \<lparr>myriad = k, easting = zero_pad (nat r) (x div 10 ^ (5 - nat r)),
                northing = zero_pad (nat r) (y div 10 ^ (5 - nat r))\<rparr>"
proof -
  let ?c = "gc (Easting off + x) (Northing off + y)"
  note o = offsets_to_table [OF off]
  have ex: "(Easting off + x) div 100000 = Easting off div 100000"
    "(Easting off + x) mod 100000 = x"
    using cell_arith [OF o(5) x] by simp_all
  have "(Northing off + 100000) mod 100000 = 0" using o(6) by simp
  from cell_arith(1) [OF this y]
  have ny1: "(Northing off + y + 100000) div 100000 = (Northing off + 100000) div 100000"
    by (simp add: add.commute add.left_commute)
  have ny2: "(Northing off + y + 100000) mod 100000 = y"
    using cell_arith(2) [OF o(6) y] by simp
  note ny = ny1 ny2
  have "Easting off + x < 8 * 100000" using o(2,5) x(2) by (rule_tac cell_bound) simp_all
  moreover have "Northing off + y < 14 * 100000" using o(4,6) y(2) by (rule_tac cell_bound) simp_all
  ultimately have inside: "0 \<le> Easting ?c" "Easting ?c < 800000" "- 100000 \<le> Northing ?c"
    "Northing ?c < 1400000"
    using o(1,3) x(1) y(1) by simp_all
  have cell: "myriadTable ! nat (Easting ?c div 100000) ! nat ((Northing ?c + 100000) div 100000) = k"
    using o(7) ex(1) ny(1) by simp
  show "ToGridRef ?c 0 = Inr \<lparr>myriad = k, easting = [], northing = []\<rparr>"
    using ToGridRef_inside(1) [OF inside] cell by simp
  assume r: "1 \<le> r" "r \<le> 5"
  show "ToGridRef ?c r =
           Inr \<lparr>myriad = k, easting = zero_pad (nat r) (x div 10 ^ (5 - nat r)),
                northing = zero_pad (nat r) (y div 10 ^ (5 - nat r))\<rparr>"
    using ToGridRef_inside(2) [OF inside r] cell ex(2) ny(2) by simp
qed

lemma offset_cell_and_back:
  assumes off: "myriadOffsets (myriad g) = Some off"
    and len: "length (easting g) = length (northing g)" "length (easting g) \<le> 5"
    and dig: "list_all is_digit (easting g)" "list_all is_digit (northing g)"
  shows "ToGridRef (gc (Easting off + int (dec (easting g)) * 10 ^ (5 - length (easting g)))
                       (Northing off + int (dec (northing g)) * 10 ^ (5 - length (easting g))))
           (DigitResolution g) = Inr g"
proof -
  define n where "n = length (easting g)"
  define x where "x = int (dec (easting g)) * 10 ^ (5 - n)"
  define y where "y = int (dec (northing g)) * 10 ^ (5 - n)"
  have x: "0 \<le> x" "x < 100000"
    using scaled_less [OF dig(1) len(2)] by (simp_all add: x_def n_def)
  have y: "0 \<le> y" "y < 100000"
    using scaled_less [OF dig(2)] len by (simp_all add: y_def n_def)
  note cell = ToGridRef_offset_cell [OF off x y]
  have goal: "ToGridRef (gc (Easting off + x) (Northing off + y)) (int n) = Inr g"
  proof (cases "n = 0")
    case True
    with len(1) have "easting g = []" "northing g = []" by (simp_all add: n_def)
    with cell(1) True show ?thesis by simp
  next
    case False
    then have "0 < n" by simp
    moreover have "n \<le> 5" using len(2) by (simp only: n_def)
    ultimately have r: "1 \<le> int n" "int n \<le> 5" by simp_all
    from False have "length (easting g) \<noteq> 0" unfolding n_def .
    with len(1) have ne: "easting g \<noteq> []" "northing g \<noteq> []" by auto
    have "x div 10 ^ (5 - n) = int (dec (easting g))" "y div 10 ^ (5 - n) = int (dec (northing g))"
      by (simp_all add: x_def y_def)
    moreover have "zero_pad n (int (dec (easting g))) = easting g"
      using zero_pad_dec [OF ne(1) dig(1)] by (simp add: n_def)
    moreover have "zero_pad n (int (dec (northing g))) = northing g"
      using zero_pad_dec [OF ne(2) dig(2)] len(1) by (simp add: n_def)
    ultimately show ?thesis using cell(2) [OF r] by simp
  qed
  then show ?thesis by (simp add: DigitResolution_def x_def y_def n_def)
qed

lemma signed_digits:
  "ToLatLon \<lparr>myriad = ''TQ'', easting = ''+1'', northing = ''+2''\<rparr> = Inr (gc 501000 102000)"
  by (simp add: ToLatLon_def myriadOffsets_def myriadOffsets_entries_def Atoi_def dec_def
      digit_val_def is_digit_def byte_def pow10_factor_def wrap64_def)

lemma signed_digits_back:
  "ToGridRef (gc 501000 102000) 2 = Inr \<lparr>myriad = ''TQ'', easting = ''01'', northing = ''02''\<rparr>"
  by code_simp

lemma six_digits:
  "ToLatLon \<lparr>myriad = ''TQ'', easting = ''123456'', northing = ''123456''\<rparr> = Inr (gc 500000 100000)"
  by (simp add: ToLatLon_def myriadOffsets_def myriadOffsets_entries_def Atoi_def dec_def
      digit_val_def is_digit_def byte_def pow10_factor_def wrap64_def)

lemma six_digits_back: "ToGridRef (gc 500000 100000) 6 = Inl BadDigitResolution"
  by (simp add: ToGridRef_def formatLookup_def)

text \<open>
  C3, as stated, fails: \<open>ToLatLon\<close> converts more grid references than \<open>ToGridRef\<close> can
  give back. It parses the digits with \<^verbatim>\<open>strconv.Atoi\<close>, which takes a sign, so
  \<^verbatim>\<open>GridRef{"TQ", "+1", "+2"}\<close> converts to (501000, 102000), and the way back prints
  \<^verbatim>\<open>"01"\<close> and \<^verbatim>\<open>"02"\<close>. It puts no bound on the number of digits: with six the factor is 0,
  the result is the corner of the myriad, and the way back refuses resolution 6.
\<close>

theorem round_trip_counterexample:
  "ToLatLon \<lparr>myriad = ''TQ'', easting = ''+1'', northing = ''+2''\<rparr> = Inr (gc 501000 102000) \<and>
   ToGridRef (gc 501000 102000) (DigitResolution \<lparr>myriad = ''TQ'', easting = ''+1'', northing = ''+2''\<rparr>)
     = Inr \<lparr>myriad = ''TQ'', easting = ''01'', northing = ''02''\<rparr> \<and>
   ToGridRef (gc 501000 102000) (DigitResolution \<lparr>myriad = ''TQ'', easting = ''+1'', northing = ''+2''\<rparr>)
     \<noteq> Inr \<lparr>myriad = ''TQ'', easting = ''+1'', northing = ''+2''\<rparr> \<and>
   ToLatLon \<lparr>myriad = ''TQ'', easting = ''123456'', northing = ''123456''\<rparr> = Inr (gc 500000 100000) \<and>
   ToGridRef (gc 500000 100000) (DigitResolution \<lparr>myriad = ''TQ'', easting = ''123456'', northing = ''123456''\<rparr>)
     = Inl BadDigitResolution"
proof -
  have r2: "DigitResolution \<lparr>myriad = ''TQ'', easting = ''+1'', northing = ''+2''\<rparr> = 2"
    by (simp add: DigitResolution_def)
  have r6: "DigitResolution \<lparr>myriad = ''TQ'', easting = ''123456'', northing = ''123456''\<rparr> = 6"
    by (simp add: DigitResolution_def)
  have differ: "(Inr \<lparr>myriad = ''TQ'', easting = ''01'', northing = ''02''\<rparr> :: error + GridRef)
     \<noteq> Inr \<lparr>myriad = ''TQ'', easting = ''+1'', northing = ''+2''\<rparr>"
    by simp
  show ?thesis
    unfolding r2 r6 signed_digits signed_digits_back six_digits six_digits_back
    using differ by (simp only: simp_thms)
qed

text \<open>
  C3, amended. For a grid reference whose easting and northing are strings of decimal
  digits, at most five of them, and that \<open>ToLatLon\<close> converts, \<open>ToGridRef\<close> at the digit
  resolution of the reference takes the coordinate back to the same reference: the same
  myriad and the same two digit strings.
\<close>

theorem round_trip:
  assumes "ToLatLon g = Inr c"
    and "length (easting g) \<le> 5"
    and "list_all is_digit (easting g)" and "list_all is_digit (northing g)"
  shows "ToGridRef c (DigitResolution g) = Inr g"
proof -
  from ToLatLon_InrD [OF assms(1)] obtain off
    where off: "myriadOffsets (myriad g) = Some off"
      and len: "length (easting g) = length (northing g)" by auto
  from ToLatLon_digits [OF off len assms(2-4)] assms(1)
  have c: "c = gc (Easting off + int (dec (easting g)) * 10 ^ (5 - length (easting g)))
             (Northing off + int (dec (northing g)) * 10 ^ (5 - length (easting g)))"
    by simp
  show ?thesis unfolding c by (rule offset_cell_and_back [OF off len assms(2-4)])
qed

theorem round_trip_witness:
  "ToGridRef (gc 447300 1141400) 3 = Inr \<lparr>myriad = ''HU'', easting = ''473'', northing = ''414''\<rparr>"
proof -
  let ?g = "\<lparr>myriad = ''HU'', easting = ''473'', northing = ''414''\<rparr>"
  have "ToLatLon ?g = Inr (gc 447300 1141400)"
    by (simp add: ToLatLon_def myriadOffsets_def myriadOffsets_entries_def Atoi_def dec_def
      digit_val_def is_digit_def byte_def pow10_factor_def wrap64_def)
  moreover have "length (easting ?g) \<le> 5" by simp
  moreover have "list_all is_digit (easting ?g)" "list_all is_digit (northing ?g)"
    by (simp_all add: is_digit_def byte_def)
  ultimately have "ToGridRef (gc 447300 1141400) (DigitResolution ?g) = Inr ?g"
    by (rule round_trip)
  moreover have "DigitResolution ?g = 3" by (simp add: DigitResolution_def)
  ultimately show ?thesis by (simp only:)
qed

section \<open>What the pattern matches\<close>

lemma in_run_Seq:
  "(s', c') \<in> set (run inp (Seq a b) st) \<Longrightarrow>
     \<exists>s1 c1. (s1, c1) \<in> set (run inp a st) \<and> (s', c') \<in> set (run inp b (s1, c1))"
  by auto

lemma in_run_Named:
  "(s', c') \<in> set (run inp (Named nm r) (s, c)) \<Longrightarrow>
     \<exists>c0. (s', c0) \<in> set (run inp r (s, c)) \<and> c' = c0(nm \<mapsto> take (length s - length s') s)"
  by auto

lemma in_run_Alt:
  "(s', c') \<in> set (run inp (Alt a b) st) \<Longrightarrow>
     (s', c') \<in> set (run inp a st) \<or> (s', c') \<in> set (run inp b st)"
  by auto

lemma in_run_Opt:
  "(s', c') \<in> set (run inp (Opt a) st) \<Longrightarrow> (s', c') \<in> set (run inp a st) \<or> (s', c') = st"
  by auto

lemma in_run_Eot: "(s', c') \<in> set (run inp Eot (s, c)) \<Longrightarrow> s = [] \<and> s' = [] \<and> c' = c"
  by (auto split: if_splits)

lemma in_run_Bot:
  "(s', c') \<in> set (run inp Bot (s, c)) \<Longrightarrow> length s = length inp \<and> s' = s \<and> c' = c"
  by (auto split: if_splits)

lemma search_SomeD:
  "search re inp s = Some k \<Longrightarrow>
     \<exists>p t rest. s = p @ t \<and> (rest, k) \<in> set (run inp re (t, Map.empty))"
proof (induction s)
  case Nil
  then obtain rest where "(rest, k) \<in> set (run inp re ([], Map.empty))"
    by (auto split: list.splits)
  then show ?case by blast
next
  case (Cons x xs)
  show ?case
  proof (cases "run inp re (x # xs, Map.empty)")
    case Nil
    with Cons.prems have "search re inp xs = Some k" by simp
    from Cons.IH [OF this] obtain p t rest
      where "xs = p @ t" "(rest, k) \<in> set (run inp re (t, Map.empty))" by blast
    then have "x # xs = (x # p) @ t \<and> (rest, k) \<in> set (run inp re (t, Map.empty))" by simp
    then show ?thesis by blast
  next
    case (Cons r rs)
    with Cons.prems obtain rest where "(rest, k) \<in> set (run inp re (x # xs, Map.empty))"
      by (cases r) auto
    then have "x # xs = [] @ (x # xs) \<and> (rest, k) \<in> set (run inp re (x # xs, Map.empty))"
      by simp
    then show ?thesis by blast
  qed
qed

lemma in_run_digit:
  "(s', c') \<in> set (run inp digit (s, c)) \<Longrightarrow> \<exists>x. s = x # s' \<and> is_digit x \<and> c' = c"
  by (cases s) (auto simp: digit_def is_digit_def split: if_splits)

lemma in_run_rep_digit:
  "(s', c') \<in> set (run inp (rep n digit) (s, c)) \<Longrightarrow>
     \<exists>w. s = w @ s' \<and> length w = n \<and> list_all is_digit w \<and> c' = c"
proof (induction n arbitrary: s)
  case 0
  then show ?case by simp
next
  case (Suc n)
  then have "(s', c') \<in> set (run inp (Seq digit (rep n digit)) (s, c))" by simp
  from in_run_Seq [OF this] obtain s1 c1 where 1: "(s1, c1) \<in> set (run inp digit (s, c))"
    and 2: "(s', c') \<in> set (run inp (rep n digit) (s1, c1))" by blast
  from in_run_digit [OF 1] obtain x where x: "s = x # s1" "is_digit x" "c1 = c" by auto
  from 2 x(3) Suc.IH [of s1] obtain w where "s1 = w @ s'" "length w = n" "list_all is_digit w" "c' = c"
    by auto
  with x have "s = (x # w) @ s' \<and> length (x # w) = Suc n \<and> list_all is_digit (x # w) \<and> c' = c"
    by simp
  then show ?case by blast
qed

lemma in_run_one_digit:
  assumes "(s', c') \<in> set (run inp digit (s, c))"
  shows "\<exists>w. s = w @ s' \<and> length w = 1 \<and> list_all is_digit w \<and> c' = c"
proof -
  from in_run_digit [OF assms] obtain x where "s = x # s'" "is_digit x" "c' = c" by auto
  then have "s = [x] @ s' \<and> length [x] = 1 \<and> list_all is_digit [x] \<and> c' = c" by simp
  then show ?thesis by blast
qed

lemma in_run_space_opt:
  "(s', c') \<in> set (run inp space_opt (s, c)) \<Longrightarrow> c' = c \<and> (s = s' \<or> s = CHR '' '' # s')"
  by (cases s) (auto simp: space_opt_def split: if_splits)

lemma in_run_pair:
  assumes run: "(s', c') \<in> set (run inp (Seq (Named en E) (Seq space_opt (Named nn N))) (s, c))"
    and E: "\<And>s c s' c'. (s', c') \<in> set (run inp E (s, c)) \<Longrightarrow>
              \<exists>w. s = w @ s' \<and> length w = k \<and> list_all is_digit w \<and> c' = c"
    and N: "\<And>s c s' c'. (s', c') \<in> set (run inp N (s, c)) \<Longrightarrow>
              \<exists>w. s = w @ s' \<and> length w = k \<and> list_all is_digit w \<and> c' = c"
  shows "\<exists>e sp n. s = e @ sp @ n @ s' \<and> length e = k \<and> length n = k \<and>
            list_all is_digit e \<and> list_all is_digit n \<and> (sp = [] \<or> sp = '' '') \<and>
            c' = c(en \<mapsto> e, nn \<mapsto> n)"
proof -
  from in_run_Seq [OF run] obtain s1 c1 where 1: "(s1, c1) \<in> set (run inp (Named en E) (s, c))"
    and 23: "(s', c') \<in> set (run inp (Seq space_opt (Named nn N)) (s1, c1))" by blast
  from in_run_Seq [OF 23] obtain s2 c2 where 2: "(s2, c2) \<in> set (run inp space_opt (s1, c1))"
    and 3: "(s', c') \<in> set (run inp (Named nn N) (s2, c2))" by blast
  from in_run_Named [OF 1] obtain c0 where e0: "(s1, c0) \<in> set (run inp E (s, c))"
    and c1: "c1 = c0(en \<mapsto> take (length s - length s1) s)" by blast
  from E [OF e0] obtain e where e: "s = e @ s1" "length e = k" "list_all is_digit e" "c0 = c"
    by auto
  from in_run_space_opt [OF 2] have c2: "c2 = c1" and sp: "s1 = s2 \<or> s1 = CHR '' '' # s2"
    by simp_all
  from in_run_Named [OF 3] obtain c3 where n0: "(s', c3) \<in> set (run inp N (s2, c2))"
    and c': "c' = c3(nn \<mapsto> take (length s2 - length s') s2)" by blast
  from N [OF n0] obtain n where n: "s2 = n @ s'" "length n = k" "list_all is_digit n" "c3 = c2"
    by auto
  from sp obtain sp' where sp': "s1 = sp' @ s2" "sp' = [] \<or> sp' = '' ''" by auto
  from e n c1 c2 c' have "c' = c(en \<mapsto> e, nn \<mapsto> n)" by simp
  with e n sp' have "s = e @ sp' @ n @ s' \<and> length e = k \<and> length n = k \<and>
            list_all is_digit e \<and> list_all is_digit n \<and> (sp' = [] \<or> sp' = '' '') \<and>
            c' = c(en \<mapsto> e, nn \<mapsto> n)" by simp
  then show ?thesis by blast
qed

lemma in_run_pair_1:
  assumes "(s', c') \<in> set (run inp (Seq (Named en digit) (Seq space_opt (Named nn digit))) (s, c))"
  shows "\<exists>e sp n. s = e @ sp @ n @ s' \<and> length e = 1 \<and> length n = 1 \<and>
            list_all is_digit e \<and> list_all is_digit n \<and> (sp = [] \<or> sp = '' '') \<and>
            c' = c(en \<mapsto> e, nn \<mapsto> n)"
  by (rule in_run_pair [OF assms]) (erule in_run_one_digit)+

lemma in_run_pair_rep:
  assumes "(s', c') \<in> set (run inp (Seq (Named en (rep k digit))
             (Seq space_opt (Named nn (rep k digit)))) (s, c))"
  shows "\<exists>e sp n. s = e @ sp @ n @ s' \<and> length e = k \<and> length n = k \<and>
            list_all is_digit e \<and> list_all is_digit n \<and> (sp = [] \<or> sp = '' '') \<and>
            c' = c(en \<mapsto> e, nn \<mapsto> n)"
  by (rule in_run_pair [OF assms]) (erule in_run_rep_digit)+

lemma in_run_digit_pairs:
  assumes "(s', c') \<in> set (run inp digit_pairs (s, c))"
  shows "\<exists>e sp n. s = e @ sp @ n @ s' \<and> length e = length n \<and> 1 \<le> length e \<and> length e \<le> 5 \<and>
            list_all is_digit e \<and> list_all is_digit n \<and> (sp = [] \<or> sp = '' '') \<and>
            (c' = c(''easting1'' \<mapsto> e, ''northing1'' \<mapsto> n) \<or>
             c' = c(''easting2'' \<mapsto> e, ''northing2'' \<mapsto> n) \<or>
             c' = c(''easting3'' \<mapsto> e, ''northing3'' \<mapsto> n) \<or>
             c' = c(''easting4'' \<mapsto> e, ''northing4'' \<mapsto> n) \<or>
             c' = c(''easting5'' \<mapsto> e, ''northing5'' \<mapsto> n))"
proof -
  from assms have
    "(s', c') \<in> set (run inp (Seq (Named ''easting1'' digit) (Seq space_opt (Named ''northing1'' digit))) (s, c)) \<or>
     (s', c') \<in> set (run inp (Seq (Named ''easting2'' (rep 2 digit)) (Seq space_opt (Named ''northing2'' (rep 2 digit)))) (s, c)) \<or>
     (s', c') \<in> set (run inp (Seq (Named ''easting3'' (rep 3 digit)) (Seq space_opt (Named ''northing3'' (rep 3 digit)))) (s, c)) \<or>
     (s', c') \<in> set (run inp (Seq (Named ''easting4'' (rep 4 digit)) (Seq space_opt (Named ''northing4'' (rep 4 digit)))) (s, c)) \<or>
     (s', c') \<in> set (run inp (Seq (Named ''easting5'' (rep 5 digit)) (Seq space_opt (Named ''northing5'' (rep 5 digit)))) (s, c))"
    unfolding digit_pairs_def run.simps(6) set_append Un_iff .
  then show ?thesis
  proof (elim disjE)
    assume "(s', c') \<in> set (run inp (Seq (Named ''easting1'' digit) (Seq space_opt (Named ''northing1'' digit))) (s, c))"
    from in_run_pair_1 [OF this] obtain e sp n where "s = e @ sp @ n @ s'" "length e = 1" "length n = 1"
      "list_all is_digit e" "list_all is_digit n" "sp = [] \<or> sp = '' ''"
      "c' = c(''easting1'' \<mapsto> e, ''northing1'' \<mapsto> n)" by blast
    then show ?thesis by (intro exI [of _ e] exI [of _ sp] exI [of _ n]) simp
  next
    assume "(s', c') \<in> set (run inp (Seq (Named ''easting2'' (rep 2 digit)) (Seq space_opt (Named ''northing2'' (rep 2 digit)))) (s, c))"
    from in_run_pair_rep [OF this] obtain e sp n where "s = e @ sp @ n @ s'" "length e = 2" "length n = 2"
      "list_all is_digit e" "list_all is_digit n" "sp = [] \<or> sp = '' ''"
      "c' = c(''easting2'' \<mapsto> e, ''northing2'' \<mapsto> n)" by blast
    then show ?thesis by (intro exI [of _ e] exI [of _ sp] exI [of _ n]) simp
  next
    assume "(s', c') \<in> set (run inp (Seq (Named ''easting3'' (rep 3 digit)) (Seq space_opt (Named ''northing3'' (rep 3 digit)))) (s, c))"
    from in_run_pair_rep [OF this] obtain e sp n where "s = e @ sp @ n @ s'" "length e = 3" "length n = 3"
      "list_all is_digit e" "list_all is_digit n" "sp = [] \<or> sp = '' ''"
      "c' = c(''easting3'' \<mapsto> e, ''northing3'' \<mapsto> n)" by blast
    then show ?thesis by (intro exI [of _ e] exI [of _ sp] exI [of _ n]) simp
  next
    assume "(s', c') \<in> set (run inp (Seq (Named ''easting4'' (rep 4 digit)) (Seq space_opt (Named ''northing4'' (rep 4 digit)))) (s, c))"
    from in_run_pair_rep [OF this] obtain e sp n where "s = e @ sp @ n @ s'" "length e = 4" "length n = 4"
      "list_all is_digit e" "list_all is_digit n" "sp = [] \<or> sp = '' ''"
      "c' = c(''easting4'' \<mapsto> e, ''northing4'' \<mapsto> n)" by blast
    then show ?thesis by (intro exI [of _ e] exI [of _ sp] exI [of _ n]) simp
  next
    assume "(s', c') \<in> set (run inp (Seq (Named ''easting5'' (rep 5 digit)) (Seq space_opt (Named ''northing5'' (rep 5 digit)))) (s, c))"
    from in_run_pair_rep [OF this] obtain e sp n where "s = e @ sp @ n @ s'" "length e = 5" "length n = 5"
      "list_all is_digit e" "list_all is_digit n" "sp = [] \<or> sp = '' ''"
      "c' = c(''easting5'' \<mapsto> e, ''northing5'' \<mapsto> n)" by blast
    then show ?thesis by (intro exI [of _ e] exI [of _ sp] exI [of _ n]) simp
  qed
qed

lemma in_run_class_pair:
  assumes "(s', c') \<in> set (run inp (Seq a b) (s, c))"
    and "\<And>s c s' c'. (s', c') \<in> set (run inp a (s, c)) \<Longrightarrow> \<exists>x. s = x # s' \<and> c' = c"
    and "\<And>s c s' c'. (s', c') \<in> set (run inp b (s, c)) \<Longrightarrow> \<exists>x. s = x # s' \<and> c' = c"
  shows "\<exists>x y. s = x # y # s' \<and> c' = c"
proof -
  from in_run_Seq [OF assms(1)] obtain s1 c1 where 1: "(s1, c1) \<in> set (run inp a (s, c))"
    and 2: "(s', c') \<in> set (run inp b (s1, c1))" by blast
  from assms(2) [OF 1] assms(3) [OF 2] show ?thesis by auto
qed

lemma in_run_Lit: "(s', c') \<in> set (run inp (Lit x) (s, c)) \<Longrightarrow> \<exists>x. s = x # s' \<and> c' = c"
  by (cases s) (auto split: if_splits)

lemma in_run_OneOf: "(s', c') \<in> set (run inp (OneOf xs) (s, c)) \<Longrightarrow> \<exists>x. s = x # s' \<and> c' = c"
  by (cases s) (auto split: if_splits)

lemma in_run_Range: "(s', c') \<in> set (run inp (Range lo hi) (s, c)) \<Longrightarrow> \<exists>x. s = x # s' \<and> c' = c"
  by (cases s) (auto split: if_splits)

lemma in_run_myriad_alternatives_cases:
  assumes "(s', c') \<in> set (run inp myriad_alternatives (s, c))"
  shows "(s', c') \<in> set (run inp (Seq (OneOf ''JH'') (Range CHR ''F'' CHR ''H'')) (s, c)) \<or>
     (s', c') \<in> set (run inp (Seq (OneOf ''NS'') (Range CHR ''A'' CHR ''H'')) (s, c)) \<or>
     (s', c') \<in> set (run inp (Seq (OneOf ''HNS'') (Range CHR ''J'' CHR ''Z'')) (s, c)) \<or>
     (s', c') \<in> set (run inp (Seq (OneOf ''OTY'') (Range CHR ''A'' CHR ''C'')) (s, c)) \<or>
     (s', c') \<in> set (run inp (Seq (OneOf ''OT'') (Range CHR ''F'' CHR ''H'')) (s, c)) \<or>
     (s', c') \<in> set (run inp (Seq (OneOf ''JOT'') (Range CHR ''L'' CHR ''N'')) (s, c)) \<or>
     (s', c') \<in> set (run inp (Seq (OneOf ''JOT'') (Range CHR ''Q'' CHR ''S'')) (s, c)) \<or>
     (s', c') \<in> set (run inp (Seq (OneOf ''JOT'') (Range CHR ''V'' CHR ''X'')) (s, c)) \<or>
     (s', c') \<in> set (run inp (Seq (Lit CHR ''X'') (Range CHR ''A'' CHR ''E'')) (s, c))"
  using assms unfolding myriad_alternatives_def run.simps(6) set_append Un_iff .

lemma in_run_myriad_alternatives:
  assumes "(s', c') \<in> set (run inp myriad_alternatives (s, c))"
  shows "\<exists>x y. s = x # y # s' \<and> c' = c"
  using in_run_myriad_alternatives_cases [OF assms]
proof (elim disjE)
  assume "(s', c') \<in> set (run inp (Seq (OneOf ''JH'') (Range CHR ''F'' CHR ''H'')) (s, c))"
  then show ?thesis by (rule in_run_class_pair) (erule in_run_OneOf in_run_Range)+
next
  assume "(s', c') \<in> set (run inp (Seq (OneOf ''NS'') (Range CHR ''A'' CHR ''H'')) (s, c))"
  then show ?thesis by (rule in_run_class_pair) (erule in_run_OneOf in_run_Range)+
next
  assume "(s', c') \<in> set (run inp (Seq (OneOf ''HNS'') (Range CHR ''J'' CHR ''Z'')) (s, c))"
  then show ?thesis by (rule in_run_class_pair) (erule in_run_OneOf in_run_Range)+
next
  assume "(s', c') \<in> set (run inp (Seq (OneOf ''OTY'') (Range CHR ''A'' CHR ''C'')) (s, c))"
  then show ?thesis by (rule in_run_class_pair) (erule in_run_OneOf in_run_Range)+
next
  assume "(s', c') \<in> set (run inp (Seq (OneOf ''OT'') (Range CHR ''F'' CHR ''H'')) (s, c))"
  then show ?thesis by (rule in_run_class_pair) (erule in_run_OneOf in_run_Range)+
next
  assume "(s', c') \<in> set (run inp (Seq (OneOf ''JOT'') (Range CHR ''L'' CHR ''N'')) (s, c))"
  then show ?thesis by (rule in_run_class_pair) (erule in_run_OneOf in_run_Range)+
next
  assume "(s', c') \<in> set (run inp (Seq (OneOf ''JOT'') (Range CHR ''Q'' CHR ''S'')) (s, c))"
  then show ?thesis by (rule in_run_class_pair) (erule in_run_OneOf in_run_Range)+
next
  assume "(s', c') \<in> set (run inp (Seq (OneOf ''JOT'') (Range CHR ''V'' CHR ''X'')) (s, c))"
  then show ?thesis by (rule in_run_class_pair) (erule in_run_OneOf in_run_Range)+
next
  assume "(s', c') \<in> set (run inp (Seq (Lit CHR ''X'') (Range CHR ''A'' CHR ''E'')) (s, c))"
  then show ?thesis by (rule in_run_class_pair) (erule in_run_Lit in_run_Range)+
qed

lemma SubexpNames_ngrCre:
  "SubexpNames ngrCre =
     [''myriad'', ''easting1'', ''northing1'', ''easting2'', ''northing2'', ''easting3'',
      ''northing3'', ''easting4'', ''northing4'', ''easting5'', ''northing5'']"
  by (simp add: ngrCre_def myriad_alternatives_def space_opt_def digit_pairs_def digit_def
      eval_nat_numeral)

lemma assign_myriad_only:
  "fold (assign (Map.empty(''myriad'' \<mapsto> m))) (SubexpNames ngrCre)
     \<lparr>myriad = [], easting = [], northing = []\<rparr> = \<lparr>myriad = m, easting = [], northing = []\<rparr>"
  by (simp add: SubexpNames_ngrCre assign_def submatch_def HasPrefix_def)

lemma assign_digits:
  assumes "c = Map.empty(''myriad'' \<mapsto> m, ''easting1'' \<mapsto> e, ''northing1'' \<mapsto> n) \<or>
           c = Map.empty(''myriad'' \<mapsto> m, ''easting2'' \<mapsto> e, ''northing2'' \<mapsto> n) \<or>
           c = Map.empty(''myriad'' \<mapsto> m, ''easting3'' \<mapsto> e, ''northing3'' \<mapsto> n) \<or>
           c = Map.empty(''myriad'' \<mapsto> m, ''easting4'' \<mapsto> e, ''northing4'' \<mapsto> n) \<or>
           c = Map.empty(''myriad'' \<mapsto> m, ''easting5'' \<mapsto> e, ''northing5'' \<mapsto> n)"
  shows "fold (assign c) (SubexpNames ngrCre) \<lparr>myriad = [], easting = [], northing = []\<rparr> =
           \<lparr>myriad = m, easting = e, northing = n\<rparr>"
  using assms
  by (elim disjE) (simp_all add: SubexpNames_ngrCre assign_def submatch_def HasPrefix_def)

lemma in_run_ngrCre_start:
  assumes "(s', c') \<in> set (run inp ngrCre (s, c))"
  shows "length s = length inp"
    and "\<exists>s1 c1. (s1, c1) \<in> set (run inp (Named ''myriad'' myriad_alternatives) (s, c)) \<and>
           (s', c') \<in> set (run inp (Seq space_opt (Seq (Opt digit_pairs) Eot)) (s1, c1))"
proof -
  from assms have "(s', c') \<in> set (run inp (Seq Bot (Seq (Named ''myriad'' myriad_alternatives)
     (Seq space_opt (Seq (Opt digit_pairs) Eot)))) (s, c))" by (simp only: ngrCre_def)
  from in_run_Seq [OF this] obtain s0 c0
    where 0: "(s0, c0) \<in> set (run inp Bot (s, c))"
      and r0: "(s', c') \<in> set (run inp (Seq (Named ''myriad'' myriad_alternatives)
        (Seq space_opt (Seq (Opt digit_pairs) Eot))) (s0, c0))" by blast
  from in_run_Bot [OF 0] have b: "length s = length inp" "s0 = s" "c0 = c" by simp_all
  then show "length s = length inp" by simp
  from in_run_Seq [OF r0] b(2,3)
  show "\<exists>s1 c1. (s1, c1) \<in> set (run inp (Named ''myriad'' myriad_alternatives) (s, c)) \<and>
           (s', c') \<in> set (run inp (Seq space_opt (Seq (Opt digit_pairs) Eot)) (s1, c1))"
    by simp
qed

lemma FindStringSubmatch_ngrCre_SomeD:
  assumes "FindStringSubmatch ngrCre s = Some c"
  shows "\<exists>s'. (s', c) \<in> set (run s ngrCre (s, Map.empty))"
proof -
  from assms have "search ngrCre s s = Some c" by (simp only: FindStringSubmatch_def)
  from search_SomeD [OF this] obtain p t rest
    where s: "s = p @ t" and r: "(rest, c) \<in> set (run s ngrCre (t, Map.empty))" by blast
  from in_run_ngrCre_start(1) [OF r] s have "p = []" by simp
  with s r show ?thesis by auto
qed

lemma in_run_ngrCre:
  assumes "(s', c') \<in> set (run inp ngrCre (s, Map.empty))"
  shows "\<exists>m sp1 e sp2 n. s = m @ sp1 @ e @ sp2 @ n \<and> length m = 2 \<and>
           (sp1 = [] \<or> sp1 = '' '') \<and> (sp2 = [] \<or> sp2 = '' '') \<and> (e = [] \<longrightarrow> sp2 = []) \<and>
           length e = length n \<and> length e \<le> 5 \<and> list_all is_digit e \<and> list_all is_digit n \<and>
           fold (assign c') (SubexpNames ngrCre) \<lparr>myriad = [], easting = [], northing = []\<rparr> =
             \<lparr>myriad = m, easting = e, northing = n\<rparr>"
proof -
  from in_run_ngrCre_start [OF assms] obtain s1 c1
    where 1: "(s1, c1) \<in> set (run inp (Named ''myriad'' myriad_alternatives) (s, Map.empty))"
      and r1: "(s', c') \<in> set (run inp (Seq space_opt (Seq (Opt digit_pairs) Eot)) (s1, c1))" by blast
  from in_run_Seq [OF r1] obtain s2 c2
    where 2: "(s2, c2) \<in> set (run inp space_opt (s1, c1))"
      and r2: "(s', c') \<in> set (run inp (Seq (Opt digit_pairs) Eot) (s2, c2))" by blast
  from in_run_Seq [OF r2] obtain s3 c3
    where 3: "(s3, c3) \<in> set (run inp (Opt digit_pairs) (s2, c2))"
      and 4: "(s', c') \<in> set (run inp Eot (s3, c3))" by blast
  from in_run_Named [OF 1] obtain c0
    where 0: "(s1, c0) \<in> set (run inp myriad_alternatives (s, Map.empty))"
      and c1: "c1 = c0(''myriad'' \<mapsto> take (length s - length s1) s)" by blast
  from in_run_myriad_alternatives [OF 0] obtain x y where xy: "s = x # y # s1" "c0 = Map.empty"
    by blast
  with c1 have c1': "c1 = Map.empty(''myriad'' \<mapsto> [x, y])" by simp
  from in_run_space_opt [OF 2] obtain sp1 where sp1: "s1 = sp1 @ s2" "sp1 = [] \<or> sp1 = '' ''"
    and c2: "c2 = c1" by auto
  from in_run_Eot [OF 4] have fin: "s3 = []" "c' = c3" by simp_all
  from in_run_Opt [OF 3] show ?thesis
  proof
    assume "(s3, c3) \<in> set (run inp digit_pairs (s2, c2))"
    from in_run_digit_pairs [OF this] obtain e sp2 n
      where d: "s2 = e @ sp2 @ n @ s3" "length e = length n" "1 \<le> length e" "length e \<le> 5"
        "list_all is_digit e" "list_all is_digit n" "sp2 = [] \<or> sp2 = '' ''"
      and c3: "c3 = c2(''easting1'' \<mapsto> e, ''northing1'' \<mapsto> n) \<or>
             c3 = c2(''easting2'' \<mapsto> e, ''northing2'' \<mapsto> n) \<or>
             c3 = c2(''easting3'' \<mapsto> e, ''northing3'' \<mapsto> n) \<or>
             c3 = c2(''easting4'' \<mapsto> e, ''northing4'' \<mapsto> n) \<or>
             c3 = c2(''easting5'' \<mapsto> e, ''northing5'' \<mapsto> n)" by blast
    from c3 c2 c1' fin(2)
    have "fold (assign c') (SubexpNames ngrCre) \<lparr>myriad = [], easting = [], northing = []\<rparr> =
           \<lparr>myriad = [x, y], easting = e, northing = n\<rparr>"
      by (intro assign_digits) simp
    moreover from d(3) have "e \<noteq> []" by auto
    moreover from xy sp1 d(1) fin(1) have "s = [x, y] @ sp1 @ e @ sp2 @ n" by simp
    ultimately show ?thesis using sp1(2) d
      by (intro exI [of _ "[x, y]"] exI [of _ sp1] exI [of _ e] exI [of _ sp2] exI [of _ n]) simp
  next
    assume "(s3, c3) = (s2, c2)"
    with fin c2 c1' have "s2 = []" "c' = Map.empty(''myriad'' \<mapsto> [x, y])" by simp_all
    with xy sp1 assign_myriad_only [of "[x, y]"] show ?thesis
      by (intro exI [of _ "[x, y]"] exI [of _ sp1] exI [of _ "[]"] exI [of _ "[]"] exI [of _ "[]"]) simp
  qed
qed

lemma myriad_keys:
  assumes "myriadOffsets k \<noteq> None"
  shows "length k = 2" and "CHR '' '' \<notin> set k"
proof -
  have all: "list_all (\<lambda>(k, v). length k = 2 \<and> CHR '' '' \<notin> set k) myriadOffsets_entries"
    by (simp add: myriadOffsets_entries_def)
  from assms obtain v where "myriadOffsets k = Some v" by auto
  then have mem: "(k, v) \<in> set myriadOffsets_entries"
    unfolding myriadOffsets_def by (rule map_of_SomeD)
  from all have "\<forall>x\<in>set myriadOffsets_entries. (\<lambda>(k, v). length k = 2 \<and> CHR '' '' \<notin> set k) x"
    by (simp only: list_all_iff)
  from this mem have "(\<lambda>(k, v). length k = 2 \<and> CHR '' '' \<notin> set k) (k, v)" by (rule bspec)
  then show "length k = 2" and "CHR '' '' \<notin> set k" by simp_all
qed

lemma NewGridRefFromString_InrD:
  assumes "NewGridRefFromString s = Inr g"
  shows "myriadOffsets (myriad g) \<noteq> None"
    and "length (easting g) = length (northing g)"
    and "length (easting g) \<le> 5"
    and "list_all is_digit (easting g)" and "list_all is_digit (northing g)"
    and "\<exists>sp1 sp2. s = myriad g @ sp1 @ easting g @ sp2 @ northing g \<and>
           (sp1 = [] \<or> sp1 = '' '') \<and> (sp2 = [] \<or> sp2 = '' '') \<and> (easting g = [] \<longrightarrow> sp2 = [])"
proof -
  let ?shape = "\<lambda>g. length (easting g) \<le> 5 \<and> list_all is_digit (easting g) \<and>
     list_all is_digit (northing g) \<and>
     (\<exists>sp1 sp2. s = myriad g @ sp1 @ easting g @ sp2 @ northing g \<and>
           (sp1 = [] \<or> sp1 = '' '') \<and> (sp2 = [] \<or> sp2 = '' '') \<and> (easting g = [] \<longrightarrow> sp2 = []))"
  from assms show "myriadOffsets (myriad g) \<noteq> None"
    by (auto simp: NewGridRefFromString_def split: if_splits option.splits sum.splits)
  from assms show "length (easting g) = length (northing g)"
    by (auto simp: NewGridRefFromString_def split: if_splits option.splits sum.splits)
  have "?shape g"
  proof (cases "RuneCountInString s = 2")
    case True
    with assms have "g = \<lparr>myriad = s, easting = [], northing = []\<rparr>"
      by (auto simp: NewGridRefFromString_def split: if_splits)
    then show ?thesis by simp
  next
    case False
    with assms obtain c where c: "FindStringSubmatch ngrCre s = Some c"
      and g: "g = fold (assign c) (SubexpNames ngrCre) \<lparr>myriad = [], easting = [], northing = []\<rparr>"
      by (auto simp: NewGridRefFromString_def split: if_splits option.splits)
    from FindStringSubmatch_ngrCre_SomeD [OF c] obtain s'
      where "(s', c) \<in> set (run s ngrCre (s, Map.empty))" by blast
    from in_run_ngrCre [OF this] obtain m sp1 e sp2 n
      where p: "s = m @ sp1 @ e @ sp2 @ n" "sp1 = [] \<or> sp1 = '' ''" "sp2 = [] \<or> sp2 = '' ''"
        "e = [] \<longrightarrow> sp2 = []" "length e \<le> 5" "list_all is_digit e" "list_all is_digit n"
      and f: "fold (assign c) (SubexpNames ngrCre) \<lparr>myriad = [], easting = [], northing = []\<rparr> =
             \<lparr>myriad = m, easting = e, northing = n\<rparr>" by blast
    from g f have g': "g = \<lparr>myriad = m, easting = e, northing = n\<rparr>" by simp
    have "\<exists>sp1 sp2. s = myriad g @ sp1 @ easting g @ sp2 @ northing g \<and>
           (sp1 = [] \<or> sp1 = '' '') \<and> (sp2 = [] \<or> sp2 = '' '') \<and> (easting g = [] \<longrightarrow> sp2 = [])"
      unfolding g' using p(1-4) by (intro exI [of _ sp1] exI [of _ sp2]) simp
    with p(5-7) show ?thesis by (simp add: g')
  qed
  then show "length (easting g) \<le> 5"
    and "list_all is_digit (easting g)" and "list_all is_digit (northing g)"
    and "\<exists>sp1 sp2. s = myriad g @ sp1 @ easting g @ sp2 @ northing g \<and>
           (sp1 = [] \<or> sp1 = '' '') \<and> (sp2 = [] \<or> sp2 = '' '') \<and> (easting g = [] \<longrightarrow> sp2 = [])"
    by blast+
qed

section \<open>Constructed grid references convert\<close>

lemma ToGridRef_InrD:
  assumes "ToGridRef c r = Inr g"
  shows "\<exists>i j. i < 8 \<and> j < 15 \<and> myriad g = myriadTable ! i ! j"
    and "length (easting g) = length (northing g)"
    and "length (easting g) \<le> 5"
    and "list_all is_digit (easting g)" and "list_all is_digit (northing g)"
proof -
  from assms have "formatLookup r \<noteq> None"
    by (cases "formatLookup r") (simp_all add: ToGridRef_def)
  then obtain format factor where cfg: "formatLookup r = Some (format, factor)" by auto
  define j0 where "j0 = wrap64 (Northing c + 100000)"
  note u = ToGridRef_unfold [OF cfg, of c, folded j0_def]
  from assms u have chk: "0 \<le> Easting c" "go_quo (Easting c) 100000 < 8" "0 \<le> j0" "go_quo j0 100000 < 15"
    by (auto split: if_splits)
  from chk have i: "nat (go_quo (Easting c) 100000) < 8" and j: "nat (go_quo j0 100000) < 15"
    by simp_all
  from assms u chk have m: "myriad g = myriadTable ! nat (go_quo (Easting c) 100000) ! nat (go_quo j0 100000)"
    by (auto split: if_splits)
  with i j show "\<exists>i j. i < 8 \<and> j < 15 \<and> myriad g = myriadTable ! i ! j" by blast
  have "length (easting g) = length (northing g) \<and> length (easting g) \<le> 5 \<and>
     list_all is_digit (easting g) \<and> list_all is_digit (northing g)"
  proof (cases "factor = 0")
    case True
    with assms u chk have "easting g = []" "northing g = []" by (auto split: if_splits)
    then show ?thesis by simp
  next
    case False
    with formatLookup_Some [OF cfg] have r: "1 \<le> r" "r \<le> 5"
      and f: "format = [CHR ''%'', CHR ''0'', digit_char (nat r), CHR ''d'']" "factor = 10 ^ (5 - nat r)"
      by auto
    from chk have rem: "go_rem (Easting c) 100000 = Easting c mod 100000"
      "go_rem j0 100000 = j0 mod 100000" by (simp_all add: go_rem_nonneg)
    from assms u chk False have
      "easting g = Sprintf_d format (go_rem (Easting c) 100000 div factor)"
      "northing g = Sprintf_d format (go_rem j0 100000 div factor)"
      by (auto split: if_splits)
    then have e: "easting g = zero_pad (nat r) (Easting c mod 100000 div 10 ^ (5 - nat r))"
      and n: "northing g = zero_pad (nat r) (j0 mod 100000 div 10 ^ (5 - nat r))"
      by (simp_all add: f(1) Sprintf_d_width [OF r] rem f(2))
    from r have w: "0 < nat r" by simp
    note pe = zero_pad_props [OF cell_digits [OF r, of "Easting c"] w]
    note pn = zero_pad_props [OF cell_digits [OF r, of j0] w]
    from r show ?thesis by (simp add: e n pe pn)
  qed
  then show "length (easting g) = length (northing g)"
    and "length (easting g) \<le> 5"
    and "list_all is_digit (easting g)" and "list_all is_digit (northing g)"
    by simp_all
qed

lemma ToLatLon_well_formed:
  assumes "myriadOffsets (myriad g) \<noteq> None"
    and "length (easting g) = length (northing g)" and "length (easting g) \<le> 5"
    and "list_all is_digit (easting g)" and "list_all is_digit (northing g)"
  shows "\<exists>p. ToLatLon g = Inr p"
proof -
  from assms(1) obtain off where "myriadOffsets (myriad g) = Some off" by auto
  from ToLatLon_digits [OF this assms(2-5)] show ?thesis by blast
qed

text \<open>
  C10. A grid reference that \<open>NewGridRefFromString\<close> or \<open>ToGridRef\<close> returns has a myriad
  that is a key of \<open>myriadOffsets\<close> and an easting and a northing of one length, at most
  five, made of decimal digits only (or empty). On such a value \<open>ToLatLon\<close> returns a
  coordinate: none of its three error branches is taken.
\<close>

theorem constructed_converts:
  "(NewGridRefFromString s = Inr g \<longrightarrow>
      myriadOffsets (myriad g) \<noteq> None \<and> length (easting g) = length (northing g) \<and>
      length (easting g) \<le> 5 \<and> list_all is_digit (easting g) \<and> list_all is_digit (northing g) \<and>
      (\<exists>p. ToLatLon g = Inr p)) \<and>
   (ToGridRef c r = Inr g \<longrightarrow>
      myriadOffsets (myriad g) \<noteq> None \<and> length (easting g) = length (northing g) \<and>
      length (easting g) \<le> 5 \<and> list_all is_digit (easting g) \<and> list_all is_digit (northing g) \<and>
      (\<exists>p. ToLatLon g = Inr p))"
proof (intro conjI impI)
  assume a: "NewGridRefFromString s = Inr g"
  note d = NewGridRefFromString_InrD(1-5) [OF a]
  from d show "myriadOffsets (myriad g) \<noteq> None" "length (easting g) = length (northing g)"
    "length (easting g) \<le> 5" "list_all is_digit (easting g)" "list_all is_digit (northing g)"
    by simp_all
  from d show "\<exists>p. ToLatLon g = Inr p" by (rule ToLatLon_well_formed)
next
  assume a: "ToGridRef c r = Inr g"
  note d = ToGridRef_InrD [OF a]
  from d(1) obtain i j where "i < 8" "j < 15" "myriad g = myriadTable ! i ! j" by blast
  then show k: "myriadOffsets (myriad g) \<noteq> None" by (simp add: table_to_offsets)
  from d show "length (easting g) = length (northing g)"
    "length (easting g) \<le> 5" "list_all is_digit (easting g)" "list_all is_digit (northing g)"
    by simp_all
  from k d(2-5) show "\<exists>p. ToLatLon g = Inr p" by (rule ToLatLon_well_formed)
qed

lemma parse_TQ1234:
  "NewGridRefFromString ''TQ1234'' = Inr \<lparr>myriad = ''TQ'', easting = ''12'', northing = ''34''\<rparr>"
  by code_simp

lemma back_NW:
  "ToGridRef (gc 146298 529866) 3 = Inr \<lparr>myriad = ''NW'', easting = ''462'', northing = ''298''\<rparr>"
  by code_simp

theorem constructed_converts_witness:
  "(\<exists>p. ToLatLon \<lparr>myriad = ''TQ'', easting = ''12'', northing = ''34''\<rparr> = Inr p) \<and>
   (\<exists>p. ToLatLon \<lparr>myriad = ''NW'', easting = ''462'', northing = ''298''\<rparr> = Inr p)"
  using constructed_converts [of "''TQ1234''" "\<lparr>myriad = ''TQ'', easting = ''12'', northing = ''34''\<rparr>"
      "gc 0 0" 0]
    constructed_converts [of "''''" "\<lparr>myriad = ''NW'', easting = ''462'', northing = ''298''\<rparr>"
      "gc 146298 529866" 3]
  by (simp only: parse_TQ1234 back_NW simp_thms)

section \<open>Round trip through the text\<close>

lemma is_digit_not_space: "is_digit c \<Longrightarrow> c \<noteq> CHR '' ''"
  by (auto simp: is_digit_iff byte_def)

lemma filter_spaces_digits:
  "list_all is_digit ds \<Longrightarrow> filter (\<lambda>c. c \<noteq> CHR '' '') ds = ds"
  by (induction ds) (auto simp: is_digit_not_space)

lemma filter_spaces_sep: "sp = [] \<or> sp = '' '' \<Longrightarrow> filter (\<lambda>c. c \<noteq> CHR '' '') sp = []"
  by auto

text \<open>
  C4. For every text that \<open>NewGridRefFromString\<close> accepts, \<open>String\<close> of the parsed grid
  reference is the canonical form of the text: the myriad alone, or the myriad, one space,
  the easting digits, one space and the northing digits.
\<close>

theorem String_canonical:
  assumes "NewGridRefFromString s = Inr g"
  shows "String g = canonical s"
proof -
  note d = NewGridRefFromString_InrD [OF assms]
  from d(6) obtain sp1 sp2
    where s: "s = myriad g @ sp1 @ easting g @ sp2 @ northing g"
      and sp: "sp1 = [] \<or> sp1 = '' ''" "sp2 = [] \<or> sp2 = '' ''" by blast
  from myriad_keys [OF d(1)] have m: "length (myriad g) = 2"
    "filter (\<lambda>c. c \<noteq> CHR '' '') (myriad g) = myriad g" by (auto simp: filter_id_conv)
  have t: "filter (\<lambda>c. c \<noteq> CHR '' '') s = myriad g @ easting g @ northing g"
    unfolding s
    by (simp add: m(2) filter_spaces_digits [OF d(4)] filter_spaces_digits [OF d(5)]
        filter_spaces_sep [OF sp(1)] filter_spaces_sep [OF sp(2)])
  show ?thesis
  proof (cases "easting g = []")
    case True
    with d(2) have "northing g = []" by simp
    with True m(1) show ?thesis by (simp add: canonical_def t String_def)
  next
    case False
    with d(2) have "northing g \<noteq> []" by auto
    with False m(1) d(2) show ?thesis by (simp add: canonical_def t String_def Let_def)
  qed
qed

lemma parse_NT_spaces:
  "NewGridRefFromString ''NT26002 73723'' = Inr \<lparr>myriad = ''NT'', easting = ''26002'', northing = ''73723''\<rparr>"
  by code_simp

theorem String_canonical_witness:
  "String \<lparr>myriad = ''NT'', easting = ''26002'', northing = ''73723''\<rparr> = canonical ''NT26002 73723'' \<and>
   canonical ''NT26002 73723'' = ''NT 26002 73723''"
proof -
  have "canonical ''NT26002 73723'' = ''NT 26002 73723''" by (simp add: canonical_def)
  with String_canonical [OF parse_NT_spaces] show ?thesis by simp
qed

section \<open>The myriads of the pattern and of the table\<close>

lemma pattern_myriads_match: "list_all (Match ngrCre) pattern_myriads"
  by code_simp

lemma pattern_myriads_keys: "list_all (\<lambda>k. myriadOffsets k \<noteq> None) pattern_myriads"
  by code_simp

lemma keys_pattern_myriads:
  "list_all (\<lambda>(k, v). k \<in> set pattern_myriads) myriadOffsets_entries"
  by code_simp


lemma eq_char_iff: "(y = c) = (byte y = of_char c)"
  by (auto simp: byte_def)

lemma in_upper_case:
  assumes "65 \<le> byte y" and "byte y \<le> 90"
  shows "y \<in> set upper_case"
  using assms by (simp add: upper_case_def eq_char_iff) arith

lemma mem_letter_pairs: "x \<in> set xs \<Longrightarrow> y \<in> set ys \<Longrightarrow> [x, y] \<in> set (letter_pairs xs ys)"
  by (auto simp: letter_pairs_def)

lemma in_run_OneOf_Range:
  assumes "(s', c') \<in> set (run inp (Seq (OneOf xs) (Range lo hi)) (s, c))"
    and "65 \<le> byte lo" and "byte hi \<le> 90"
  shows "\<exists>x y. s = x # y # s' \<and>
     [x, y] \<in> set (letter_pairs xs (filter (\<lambda>c. byte lo \<le> byte c \<and> byte c \<le> byte hi) upper_case))"
proof -
  from in_run_Seq [OF assms(1)] obtain s1 c1 where 1: "(s1, c1) \<in> set (run inp (OneOf xs) (s, c))"
    and 2: "(s', c') \<in> set (run inp (Range lo hi) (s1, c1))" by blast
  from 1 obtain x where x: "s = x # s1" "x \<in> set xs"
    by (cases s) (auto split: if_splits)
  from 2 obtain y where y: "s1 = y # s'" "byte lo \<le> byte y" "byte y \<le> byte hi"
    by (cases s1) (auto split: if_splits)
  from y assms(2,3) have "y \<in> set upper_case" by (intro in_upper_case) simp_all
  with y have "y \<in> set (filter (\<lambda>c. byte lo \<le> byte c \<and> byte c \<le> byte hi) upper_case)"
    by simp
  with x y show ?thesis by (auto intro: mem_letter_pairs)
qed

lemma run_Lit_OneOf: "run inp (Lit x) st = run inp (OneOf [x]) st"
  by (cases st) (auto split: list.splits)

lemma in_run_myriad_alternatives_class:
  assumes "(s', c') \<in> set (run inp myriad_alternatives (s, c))"
  shows "\<exists>x y. s = x # y # s' \<and> [x, y] \<in> set pattern_myriads"
  using in_run_myriad_alternatives_cases [OF assms]
proof (elim disjE)
  assume "(s', c') \<in> set (run inp (Seq (OneOf ''JH'') (Range CHR ''F'' CHR ''H'')) (s, c))"
  from in_run_OneOf_Range [OF this] show ?thesis
    by (simp add: byte_def upper_case_def pattern_myriads_def) blast
next
  assume "(s', c') \<in> set (run inp (Seq (OneOf ''NS'') (Range CHR ''A'' CHR ''H'')) (s, c))"
  from in_run_OneOf_Range [OF this] show ?thesis
    by (simp add: byte_def upper_case_def pattern_myriads_def) blast
next
  assume "(s', c') \<in> set (run inp (Seq (OneOf ''HNS'') (Range CHR ''J'' CHR ''Z'')) (s, c))"
  from in_run_OneOf_Range [OF this] show ?thesis
    by (simp add: byte_def upper_case_def pattern_myriads_def) blast
next
  assume "(s', c') \<in> set (run inp (Seq (OneOf ''OTY'') (Range CHR ''A'' CHR ''C'')) (s, c))"
  from in_run_OneOf_Range [OF this] show ?thesis
    by (simp add: byte_def upper_case_def pattern_myriads_def) blast
next
  assume "(s', c') \<in> set (run inp (Seq (OneOf ''OT'') (Range CHR ''F'' CHR ''H'')) (s, c))"
  from in_run_OneOf_Range [OF this] show ?thesis
    by (simp add: byte_def upper_case_def pattern_myriads_def) blast
next
  assume "(s', c') \<in> set (run inp (Seq (OneOf ''JOT'') (Range CHR ''L'' CHR ''N'')) (s, c))"
  from in_run_OneOf_Range [OF this] show ?thesis
    by (simp add: byte_def upper_case_def pattern_myriads_def) blast
next
  assume "(s', c') \<in> set (run inp (Seq (OneOf ''JOT'') (Range CHR ''Q'' CHR ''S'')) (s, c))"
  from in_run_OneOf_Range [OF this] show ?thesis
    by (simp add: byte_def upper_case_def pattern_myriads_def) blast
next
  assume "(s', c') \<in> set (run inp (Seq (OneOf ''JOT'') (Range CHR ''V'' CHR ''X'')) (s, c))"
  from in_run_OneOf_Range [OF this] show ?thesis
    by (simp add: byte_def upper_case_def pattern_myriads_def) blast
next
  assume "(s', c') \<in> set (run inp (Seq (Lit CHR ''X'') (Range CHR ''A'' CHR ''E'')) (s, c))"
  then have "(s', c') \<in> set (run inp (Seq (OneOf ''X'') (Range CHR ''A'' CHR ''E'')) (s, c))"
    by (simp only: run.simps(5) run_Lit_OneOf)
  from in_run_OneOf_Range [OF this] show ?thesis
    by (simp add: byte_def upper_case_def pattern_myriads_def) blast
qed

lemma Match_pair_pattern:
  assumes "Match ngrCre [a, b]"
  shows "[a, b] \<in> set pattern_myriads"
proof -
  from assms obtain c' where "FindStringSubmatch ngrCre [a, b] = Some c'"
    by (auto simp: Match_def)
  from FindStringSubmatch_ngrCre_SomeD [OF this] obtain s'
    where "(s', c') \<in> set (run [a, b] ngrCre ([a, b], Map.empty))" by blast
  from in_run_ngrCre_start(2) [OF this] obtain s1 c1
    where "(s1, c1) \<in> set (run [a, b] (Named ''myriad'' myriad_alternatives) ([a, b], Map.empty))"
    by blast
  from in_run_Named [OF this] obtain c0
    where "(s1, c0) \<in> set (run [a, b] myriad_alternatives ([a, b], Map.empty))" by blast
  from in_run_myriad_alternatives_class [OF this] show ?thesis by simp
qed

lemma pattern_myriads_length: "k \<in> set pattern_myriads \<Longrightarrow> length k = 2"
  by (auto simp: pattern_myriads_def letter_pairs_def)

lemma key_iff_pattern: "(myriadOffsets k \<noteq> None) = (k \<in> set pattern_myriads)"
proof
  assume "myriadOffsets k \<noteq> None"
  then obtain v where "myriadOffsets k = Some v" by auto
  then have mem: "(k, v) \<in> set myriadOffsets_entries"
    unfolding myriadOffsets_def by (rule map_of_SomeD)
  have "\<forall>x\<in>set myriadOffsets_entries. (\<lambda>(k, v). k \<in> set pattern_myriads) x"
    using keys_pattern_myriads by (simp only: list_all_iff)
  from this mem have "(\<lambda>(k, v). k \<in> set pattern_myriads) (k, v)" by (rule bspec)
  then show "k \<in> set pattern_myriads" by simp
next
  assume "k \<in> set pattern_myriads"
  moreover have "\<forall>k\<in>set pattern_myriads. myriadOffsets k \<noteq> None"
    using pattern_myriads_keys by (simp only: list_all_iff)
  ultimately show "myriadOffsets k \<noteq> None" by blast
qed

lemma Match_iff_pattern: "Match ngrCre [a, b] = ([a, b] \<in> set pattern_myriads)"
proof
  assume "Match ngrCre [a, b]"
  then show "[a, b] \<in> set pattern_myriads" by (rule Match_pair_pattern)
next
  assume "[a, b] \<in> set pattern_myriads"
  moreover have "\<forall>k\<in>set pattern_myriads. Match ngrCre k"
    using pattern_myriads_match by (simp only: list_all_iff)
  ultimately show "Match ngrCre [a, b]" by blast
qed

text \<open>
  C5. For every pair of letters from A to Z, the pattern matches the two-letter text
  exactly when the pair is a key of \<open>myriadOffsets\<close>.
\<close>

theorem myriad_allow_list:
  assumes "a \<in> set upper_case" and "b \<in> set upper_case"
  shows "Match ngrCre [a, b] = (myriadOffsets [a, b] \<noteq> None)"
  by (simp only: Match_iff_pattern key_iff_pattern)

lemma Match_TQ: "Match ngrCre ''TQ''"
  by code_simp

lemma not_Match_AA: "\<not> Match ngrCre ''AA''"
  by code_simp

theorem myriad_allow_list_witness:
  "myriadOffsets ''TQ'' \<noteq> None \<and> myriadOffsets ''AA'' = None"
proof -
  have "CHR ''T'' \<in> set upper_case" "CHR ''Q'' \<in> set upper_case" "CHR ''A'' \<in> set upper_case"
    by (simp_all add: upper_case_def)
  from myriad_allow_list [OF this(1,2)] myriad_allow_list [OF this(3,3)] Match_TQ not_Match_AA
  show ?thesis by simp
qed

lemma HF_key: "myriadOffsets ''HF'' = Some (gc 0 1300000)"
  by (simp add: myriadOffsets_def myriadOffsets_entries_def)

lemma HF_match: "Match ngrCre ''HF''"
  by code_simp

lemma HF_not_listed: "''HF'' \<notin> set listed_myriads"
  by (simp add: listed_myriads_def letter_pairs_def)

text \<open>
  C6, as stated, fails: the specification lists J alone before F, G, H, while the pattern
  reads \<^verbatim>\<open>[JH][F-H]\<close> and the table has the keys HF, HG and HH. The pair HF is a key of
  the table and is matched by the pattern, and is not in the specification's list.
\<close>

theorem listed_myriads_counterexample:
  "''HF'' \<in> dom myriadOffsets \<and> Match ngrCre ''HF'' \<and> ''HF'' \<notin> set listed_myriads"
  using HF_key HF_match HF_not_listed by (simp add: dom_def)

text \<open>
  C6, amended. The keys of \<open>myriadOffsets\<close>, and equally the two-letter texts the pattern
  matches, are exactly the combinations J, H with F to H; N, S with A to H; H, N, S with
  J to Z; O, T, Y with A to C; O, T with F to H; J, O, T with L to N, with Q to S and with
  V to X; X with A to E.
\<close>

theorem myriads_are_pattern_myriads:
  "dom myriadOffsets = set pattern_myriads \<and>
   {s. length s = 2 \<and> Match ngrCre s} = set pattern_myriads"
proof
  show "dom myriadOffsets = set pattern_myriads"
    unfolding dom_def using key_iff_pattern by blast
  show "{s. length s = 2 \<and> Match ngrCre s} = set pattern_myriads"
  proof (intro equalityI subsetI)
    fix s assume "s \<in> {s. length s = 2 \<and> Match ngrCre s}"
    then have l: "length s = 2" and m: "Match ngrCre s" by simp_all
    from l obtain a b where "s = [a, b]"
      by (cases s; cases "tl s") auto
    with m show "s \<in> set pattern_myriads" by (simp add: Match_iff_pattern)
  next
    fix s assume s: "s \<in> set pattern_myriads"
    then have l: "length s = 2" by (rule pattern_myriads_length)
    then obtain a b where "s = [a, b]"
      by (cases s; cases "tl s") auto
    with s l show "s \<in> {s. length s = 2 \<and> Match ngrCre s}" by (simp add: Match_iff_pattern)
  qed
qed

theorem myriads_are_pattern_myriads_witness:
  "''HF'' \<in> set pattern_myriads \<and> ''XE'' \<in> dom myriadOffsets"
proof -
  have "''XE'' \<in> set pattern_myriads" by (simp add: pattern_myriads_def letter_pairs_def)
  with myriads_are_pattern_myriads HF_key show ?thesis by (auto simp: dom_def)
qed

section \<open>Fixtures\<close>

lemma fixture_parse_London:
  "NewGridRefFromString ''TQ 30695 80671'' = Inr \<lparr>myriad = ''TQ'', easting = ''30695'', northing = ''80671''\<rparr>"
  by code_simp
lemma fixture_coord_London:
  "ToLatLon \<lparr>myriad = ''TQ'', easting = ''30695'', northing = ''80671''\<rparr> = Inr (gc 530695 180671)"
  by (simp add: ToLatLon_def myriadOffsets_def myriadOffsets_entries_def Atoi_def dec_def
      digit_val_def is_digit_def byte_def pow10_factor_def wrap64_def)
lemma fixture_parse_SH:
  "NewGridRefFromString ''SH123124'' = Inr \<lparr>myriad = ''SH'', easting = ''123'', northing = ''124''\<rparr>"
  by code_simp
lemma fixture_coord_SH:
  "ToLatLon \<lparr>myriad = ''SH'', easting = ''123'', northing = ''124''\<rparr> = Inr (gc 212300 312400)"
  by (simp add: ToLatLon_def myriadOffsets_def myriadOffsets_entries_def Atoi_def dec_def
      digit_val_def is_digit_def byte_def pow10_factor_def wrap64_def)
lemma fixture_parse_XA:
  "NewGridRefFromString ''XA'' = Inr \<lparr>myriad = ''XA'', easting = [], northing = []\<rparr>"
  by code_simp
lemma fixture_coord_XA:
  "ToLatLon \<lparr>myriad = ''XA'', easting = [], northing = []\<rparr> = Inr (gc 0 (- 100000))"
  by (simp add: ToLatLon_def myriadOffsets_def myriadOffsets_entries_def Atoi_def dec_def
      digit_val_def is_digit_def byte_def pow10_factor_def wrap64_def)
lemma fixture_parse_StHelier:
  "NewGridRefFromString ''XD 92356 20839'' = Inr \<lparr>myriad = ''XD'', easting = ''92356'', northing = ''20839''\<rparr>"
  by code_simp
lemma fixture_coord_StHelier:
  "ToLatLon \<lparr>myriad = ''XD'', easting = ''92356'', northing = ''20839''\<rparr> = Inr (gc 392356 (- 79161))"
  by (simp add: ToLatLon_def myriadOffsets_def myriadOffsets_entries_def Atoi_def dec_def
      digit_val_def is_digit_def byte_def pow10_factor_def wrap64_def)
lemma fixture_parse_TQ:
  "NewGridRefFromString ''TQ'' = Inr \<lparr>myriad = ''TQ'', easting = [], northing = []\<rparr>"
  by code_simp
lemma fixture_coord_TQ:
  "ToLatLon \<lparr>myriad = ''TQ'', easting = [], northing = []\<rparr> = Inr (gc 500000 100000)"
  by (simp add: ToLatLon_def myriadOffsets_def myriadOffsets_entries_def Atoi_def dec_def
      digit_val_def is_digit_def byte_def pow10_factor_def wrap64_def)
lemma fixture_parse_empty: "NewGridRefFromString [] = Inl BadlyFormatted"
  by code_simp
lemma fixture_parse_1: "NewGridRefFromString ''1'' = Inl BadlyFormatted"
  by code_simp
lemma fixture_parse_T: "NewGridRefFromString ''T'' = Inl BadlyFormatted"
  by code_simp
lemma fixture_parse_TQ1: "NewGridRefFromString ''TQ1'' = Inl BadlyFormatted"
  by code_simp
lemma fixture_parse_tq: "NewGridRefFromString ''tq'' = Inl UnknownMyriad"
  by code_simp

text \<open>
  C9. The literal fixtures: each of the five texts parses to its grid reference, which
  converts to the stated coordinate; the empty text, \<^verbatim>\<open>1\<close>, \<^verbatim>\<open>T\<close> and \<^verbatim>\<open>TQ1\<close> are refused as
  badly formatted and \<^verbatim>\<open>tq\<close> as an unknown myriad.
\<close>

theorem fixtures:
  "NewGridRefFromString ''TQ 30695 80671'' = Inr \<lparr>myriad = ''TQ'', easting = ''30695'', northing = ''80671''\<rparr> \<and>
   ToLatLon \<lparr>myriad = ''TQ'', easting = ''30695'', northing = ''80671''\<rparr> = Inr (gc 530695 180671) \<and>
   NewGridRefFromString ''SH123124'' = Inr \<lparr>myriad = ''SH'', easting = ''123'', northing = ''124''\<rparr> \<and>
   ToLatLon \<lparr>myriad = ''SH'', easting = ''123'', northing = ''124''\<rparr> = Inr (gc 212300 312400) \<and>
   NewGridRefFromString ''XA'' = Inr \<lparr>myriad = ''XA'', easting = [], northing = []\<rparr> \<and>
   ToLatLon \<lparr>myriad = ''XA'', easting = [], northing = []\<rparr> = Inr (gc 0 (- 100000)) \<and>
   NewGridRefFromString ''XD 92356 20839'' = Inr \<lparr>myriad = ''XD'', easting = ''92356'', northing = ''20839''\<rparr> \<and>
   ToLatLon \<lparr>myriad = ''XD'', easting = ''92356'', northing = ''20839''\<rparr> = Inr (gc 392356 (- 79161)) \<and>
   NewGridRefFromString ''TQ'' = Inr \<lparr>myriad = ''TQ'', easting = [], northing = []\<rparr> \<and>
   ToLatLon \<lparr>myriad = ''TQ'', easting = [], northing = []\<rparr> = Inr (gc 500000 100000) \<and>
   NewGridRefFromString [] = Inl BadlyFormatted \<and>
   NewGridRefFromString ''1'' = Inl BadlyFormatted \<and>
   NewGridRefFromString ''T'' = Inl BadlyFormatted \<and>
   NewGridRefFromString ''TQ1'' = Inl BadlyFormatted \<and>
   NewGridRefFromString ''tq'' = Inl UnknownMyriad"
  by (simp only: fixture_parse_London fixture_coord_London fixture_parse_SH fixture_coord_SH
      fixture_parse_XA fixture_coord_XA fixture_parse_StHelier fixture_coord_StHelier
      fixture_parse_TQ fixture_coord_TQ fixture_parse_empty fixture_parse_1 fixture_parse_T
      fixture_parse_TQ1 fixture_parse_tq simp_thms)

end
